theory Spec2Isabelle
  imports Complex_Main
begin

section \<open>The intro renderer of the blocker puzzle: data model\<close>

text \<open>
  The development follows \<^verbatim>\<open>posts/blocker/js/blocker.js\<close>, class \<^verbatim>\<open>IntroRenderer\<close>
  and the parts of \<^verbatim>\<open>SolutionRenderer\<close> and \<^verbatim>\<open>CubeRenderer\<close> it relies on.
  JavaScript numbers are modelled as mathematical reals: rounding, infinities and NaN
  of IEEE doubles are outside the model. Where the source uses \<^verbatim>\<open>Infinity\<close> as the
  start value of a running minimum or maximum, the model uses \<open>None\<close>.
  A three-element array \<^verbatim>\<open>[x, y, z]\<close> is a value of type \<open>vec3\<close>; arrays indexed
  by piece are lists. Methods that mutate \<^verbatim>\<open>this\<close> take the renderer state and
  return the updated one.
\<close>

datatype vec3 = Vec3 (vx: real) (vy: real) (vz: real)

definition ZERO_OFFSET :: vec3 where
  "ZERO_OFFSET = Vec3 0 0 0"

text \<open>\<^verbatim>\<open>Math.hypot(x, y, z)\<close>.\<close>

definition hypot3 :: "real \<Rightarrow> real \<Rightarrow> real \<Rightarrow> real" where
  "hypot3 x y z = sqrt (x * x + y * y + z * z)"

text \<open>\<^verbatim>\<open>Math.hypot(x, y)\<close>.\<close>

definition hypot2 :: "real \<Rightarrow> real \<Rightarrow> real" where
  "hypot2 x y = sqrt (x * x + y * y)"

text \<open>\<^verbatim>\<open>PIECES.length\<close>: the puzzle has seven pieces.\<close>

definition PIECES_length :: nat where
  "PIECES_length = 7"

text \<open>\<^verbatim>\<open>this._cubeSize = 0.9\<close>, fixed by the constructor.\<close>

definition cubeSize :: real where
  "cubeSize = 9 / 10"

text \<open>
  The tunable constants the constructor of \<^verbatim>\<open>IntroRenderer\<close> stores on \<^verbatim>\<open>this\<close>
  (each is \<^verbatim>\<open>options.name || default\<close>).
\<close>

record config =
  holdThresholdMs :: real
  holdMoveThresholdPx :: real
  bboxExcessThreshold :: real
  bboxSolvedThreshold :: real
  reassemblePieceDuration :: real
  reassembleStagger :: real
  movingFrameThreshold :: real
  settleDelaySec :: real
  reassembleMinVisibleSec :: real
  reassembleHideDelaySec :: real
  reassembleHideExcessThreshold :: real
  reassembleExplodeShowThreshold :: real
  reassembleExplodeHideThreshold :: real
  springStrength :: real
  linearDamping :: real
  gravityStrength :: real
  collisionImpulse :: real
  collisionVelocityScale :: real
  collisionPush :: real
  pairRestitution :: real
  touchEpsilon :: real

text \<open>The values the constructor picks when no option is passed.\<close>

definition defaultConfig :: config where
  "defaultConfig = \<lparr>
     holdThresholdMs = 280,
     holdMoveThresholdPx = 8,
     bboxExcessThreshold = 25 / 1000,
     bboxSolvedThreshold = 15 / 1000,
     reassemblePieceDuration = 1 / 2,
     reassembleStagger = 55 / 1000,
     movingFrameThreshold = 15 / 1000,
     settleDelaySec = 12 / 100,
     reassembleMinVisibleSec = 9 / 10,
     reassembleHideDelaySec = 35 / 100,
     reassembleHideExcessThreshold = 18 / 1000,
     reassembleExplodeShowThreshold = 4 / 100,
     reassembleExplodeHideThreshold = 2 / 100,
     springStrength = 20,
     linearDamping = 8,
     gravityStrength = 8 / 10,
     collisionImpulse = 22 / 100,
     collisionVelocityScale = 1 / 2,
     collisionPush = 75 / 100,
     pairRestitution = 6 / 100,
     touchEpsilon = 3 / 100 \<rparr>"

section \<open>Piece contact solver\<close>

text \<open>
  A rendered piece, as built by \<^verbatim>\<open>_getRenderPieces\<close>: its index, its centre and the
  world-space centres of its cubes (the display colour is left out).
\<close>

record renderPiece =
  pieceIndex :: int
  center :: vec3
  cubes :: "vec3 list"

record cubeContact =
  cubeNormal :: vec3
  cubePenetration :: real

record pieceContact =
  normal :: vec3
  penetration :: real
  contacts :: nat

text \<open>\<^verbatim>\<open>_getCubeContact(cubeA, cubeB)\<close>; \<open>None\<close> is the source's \<^verbatim>\<open>null\<close>.\<close>

definition getCubeContact :: "config \<Rightarrow> vec3 \<Rightarrow> vec3 \<Rightarrow> cubeContact option" where
  "getCubeContact cfg cubeA cubeB =
     (let dx = vx cubeB - vx cubeA;
          dy = vy cubeB - vy cubeA;
          dz = vz cubeB - vz cubeA;
          overlapX = cubeSize - \<bar>dx\<bar>;
          overlapY = cubeSize - \<bar>dy\<bar>;
          overlapZ = cubeSize - \<bar>dz\<bar>;
          eps = touchEpsilon cfg
      in if overlapX < - eps \<or> overlapY < - eps \<or> overlapZ < - eps then None
         else
           let am0 = (0 :: nat, overlapX);
               am1 = (if overlapY < snd am0 then (1, overlapY) else am0);
               am2 = (if overlapZ < snd am1 then (2, overlapZ) else am1);
               axis = fst am2;
               minOverlap = snd am2;
               n = (if axis = 0 then Vec3 (if dx \<ge> 0 then 1 else - 1) 0 0
                    else if axis = 1 then Vec3 0 (if dy \<ge> 0 then 1 else - 1) 0
                    else Vec3 0 0 (if dz \<ge> 0 then 1 else - 1))
           in Some \<lparr> cubeNormal = n, cubePenetration = max 0 minOverlap \<rparr>)"

text \<open>The five running variables of \<^verbatim>\<open>_getPieceContact\<close>.\<close>

record contactAcc =
  normalX :: real
  normalY :: real
  normalZ :: real
  maxPenetration :: real
  contactCount :: nat

definition contactAcc0 :: contactAcc where
  "contactAcc0 = \<lparr> normalX = 0, normalY = 0, normalZ = 0, maxPenetration = 0, contactCount = 0 \<rparr>"

text \<open>The body of the inner loop of \<^verbatim>\<open>_getPieceContact\<close> for one pair of cubes.\<close>

definition accumulateContact :: "config \<Rightarrow> vec3 \<Rightarrow> vec3 \<Rightarrow> contactAcc \<Rightarrow> contactAcc" where
  "accumulateContact cfg cubeA cubeB acc =
     (case getCubeContact cfg cubeA cubeB of
        None \<Rightarrow> acc
      | Some c \<Rightarrow>
          let weight = max (5 / 1000) (cubePenetration c + touchEpsilon cfg)
          in \<lparr> normalX = normalX acc + vx (cubeNormal c) * weight,
               normalY = normalY acc + vy (cubeNormal c) * weight,
               normalZ = normalZ acc + vz (cubeNormal c) * weight,
               maxPenetration = max (maxPenetration acc) (cubePenetration c),
               contactCount = contactCount acc + 1 \<rparr>)"

text \<open>The two nested loops: every cube of A against every cube of B, in order.\<close>

definition contactLoop :: "config \<Rightarrow> vec3 list \<Rightarrow> vec3 list \<Rightarrow> contactAcc \<Rightarrow> contactAcc" where
  "contactLoop cfg as bs acc = fold (\<lambda>cubeA. fold (accumulateContact cfg cubeA) bs) as acc"

text \<open>\<^verbatim>\<open>_getPieceContact(pieceA, pieceB)\<close>.\<close>

definition getPieceContact :: "config \<Rightarrow> renderPiece \<Rightarrow> renderPiece \<Rightarrow> pieceContact option" where
  "getPieceContact cfg pieceA pieceB =
     (let acc = contactLoop cfg (cubes pieceA) (cubes pieceB) contactAcc0
      in if contactCount acc = 0 then None
         else
           let len = hypot3 (normalX acc) (normalY acc) (normalZ acc)
           in if len < 1 / 100000 then None
              else Some \<lparr> normal = Vec3 (normalX acc / len) (normalY acc / len) (normalZ acc / len),
                          penetration = maxPenetration acc,
                          contacts = contactCount acc \<rparr>)"

section \<open>Renderer state\<close>

text \<open>
  The solution being shown, \<^verbatim>\<open>SOLUTIONS[this.currentSolution]\<close>, is static data loaded
  from another file: a list of pairs of a piece index and the piece's lattice cells. It is
  a parameter of every function that reads it.
\<close>

type_synonym cell = "int \<times> int \<times> int"
type_synonym solution = "(int \<times> cell list) list"

datatype gesture = Mouse | Touch

text \<open>
  The press-state object created by \<^verbatim>\<open>_beginHold\<close>. JavaScript compares such objects by
  identity (\<^verbatim>\<open>this._pressState !== state\<close>); \<open>pressRef\<close> is that identity: every
  object gets the next unused number when it is created. The timer started for it is
  known by the same number (\<open>timerId\<close>).
\<close>

record press =
  pressRef :: nat
  pressKind :: gesture
  pressId :: int
  pressPieceIndex :: int
  startX :: real
  startY :: real
  lastX :: real
  lastY :: real
  dragDistancePx :: real
  active :: bool
  timerId :: nat

text \<open>
  The object stored in \<^verbatim>\<open>this._reassembleState\<close>. Its \<open>duration\<close> is the constant
  \<^verbatim>\<open>options.reassemblePieceDuration || 0.5\<close>, which is never 0.
\<close>

record reassemble =
  startTime :: real
  startOffsets :: "vec3 list"
  delays :: "real list"
  duration :: real
  totalDuration :: real
  startExplodeAmount :: real

text \<open>
  The fields of \<^verbatim>\<open>this\<close>. \<open>reassembleButton\<close> is the \<^verbatim>\<open>hidden\<close> property of the
  attached button (\<open>None\<close>: no button attached), \<open>explodeSlider\<close> the number shown by the
  attached slider. \<open>cameraInputLocked\<close> and \<open>cameraPageScrolling\<close> are the two facts
  of the camera this class writes respectively reads. \<open>pendingTimers\<close> holds the
  timers set by \<^verbatim>\<open>window.setTimeout\<close> and neither fired nor cleared; \<open>nextRef\<close> is
  the identity the next press-state object will get.
\<close>

record state =
  settings :: config
  explodeAmount :: real
  timeSec :: real
  deltaTime :: real
  draggingPiece :: int
  highlightedPiece :: int
  pieceOffsets :: "vec3 list"
  pieceVelocities :: "vec3 list"
  lastMotionOffsets :: "vec3 list"
  dragVelocity :: vec3
  lastDragMoveSec :: real
  pressState :: "press option"
  recoveryAttemptCount :: nat
  bboxExcess :: real
  reassembleState :: "reassemble option"
  reassembleButton :: "bool option"
  reassembleButtonVisible :: bool
  explodeSlider :: "int option"
  settledStillTime :: real
  reassembleVisibleSinceSec :: real
  reassembleHideCandidateSinceSec :: real
  cameraInputLocked :: bool
  cameraPageScrolling :: bool
  pendingTimers :: "nat list"
  nextRef :: nat

text \<open>
  The state the constructor leaves behind, for the given constants and the time
  \<^verbatim>\<open>performance.now() / 1000\<close> of the call. All three per-piece arrays have
  \<^verbatim>\<open>PIECES.length\<close> entries, and no method changes their lengths; piece indices come
  from the solution data or from \<^verbatim>\<open>_pickPieceAt\<close> and lie within the arrays. Where a
  loop or a handler of the source indexes an array with such an index, the model reads
  with \<open>!\<close> and writes with a list update.
\<close>

definition initialState :: "config \<Rightarrow> real \<Rightarrow> state" where
  "initialState c now = \<lparr>
     settings = c,
     explodeAmount = 0,
     timeSec = now,
     deltaTime = 0,
     draggingPiece = - 1,
     highlightedPiece = - 1,
     pieceOffsets = replicate PIECES_length (Vec3 0 0 0),
     pieceVelocities = replicate PIECES_length (Vec3 0 0 0),
     lastMotionOffsets = replicate PIECES_length (Vec3 0 0 0),
     dragVelocity = Vec3 0 0 0,
     lastDragMoveSec = 0,
     pressState = None,
     recoveryAttemptCount = 0,
     bboxExcess = 0,
     reassembleState = None,
     reassembleButton = None,
     reassembleButtonVisible = False,
     explodeSlider = None,
     settledStillTime = 0,
     reassembleVisibleSinceSec = 0,
     reassembleHideCandidateSinceSec = 0,
     cameraInputLocked = False,
     cameraPageScrolling = False,
     pendingTimers = [],
     nextRef = 0 \<rparr>"

section \<open>Rendered pieces and the bounding-box metric\<close>

text \<open>\<^verbatim>\<open>_getPieceOffset(pieceIndex)\<close>: \<^verbatim>\<open>this._pieceOffsets[pieceIndex] || ZERO_OFFSET\<close>.\<close>

definition getPieceOffset :: "state \<Rightarrow> int \<Rightarrow> vec3" where
  "getPieceOffset st i =
     (if 0 \<le> i \<and> nat i < length (pieceOffsets st) then pieceOffsets st ! nat i else ZERO_OFFSET)"

text \<open>
  One iteration of the loop of \<^verbatim>\<open>_getRenderPieces\<close>, for the explode amount and the
  offset resolver in force. \<^verbatim>\<open>Math.sqrt(...) || 1\<close> replaces a zero length by 1. Every
  entry of a solution has at least one cell, so the division by \<^verbatim>\<open>cubes.length\<close> is
  a division by a positive number.
\<close>

definition renderPieceOf :: "real \<Rightarrow> (int \<Rightarrow> vec3) \<Rightarrow> int \<times> cell list \<Rightarrow> renderPiece" where
  "renderPieceOf explode offsetResolver entry =
     (let idx = fst entry;
          cells = snd entry;
          cx = (\<Sum>c\<leftarrow>cells. real_of_int (fst c)) / real (length cells);
          cy = (\<Sum>c\<leftarrow>cells. real_of_int (fst (snd c))) / real (length cells);
          cz = (\<Sum>c\<leftarrow>cells. real_of_int (snd (snd c))) / real (length cells);
          dx = cx - 1;
          dy = cy - 1;
          dz = cz - 1;
          len0 = sqrt (dx * dx + dy * dy + dz * dz);
          len = (if len0 = 0 then 1 else len0);
          ex = dx / len;
          ey = dy / len;
          ez = dz / len;
          userOffset = offsetResolver idx;
          ox = ex * explode + vx userOffset;
          oy = ey * explode + vy userOffset;
          oz = ez * explode + vz userOffset
      in \<lparr> pieceIndex = idx,
           center = Vec3 ((cx - 1) + ox) ((cy - 1) + oy) ((cz - 1) + oz),
           cubes = map (\<lambda>c. Vec3 ((real_of_int (fst c) - 1) + ox)
                                 ((real_of_int (fst (snd c)) - 1) + oy)
                                 ((real_of_int (snd (snd c)) - 1) + oz)) cells \<rparr>)"

text \<open>\<^verbatim>\<open>_getRenderPieces(solution, offsetResolver)\<close>.\<close>

definition getRenderPieces :: "real \<Rightarrow> (int \<Rightarrow> vec3) \<Rightarrow> solution \<Rightarrow> renderPiece list" where
  "getRenderPieces explode offsetResolver sol = map (renderPieceOf explode offsetResolver) sol"

text \<open>
  The six running bounds of \<^verbatim>\<open>_computePiecesBoundingBox\<close>, as the low and the high
  corner of the box. The source starts them at \<^verbatim>\<open>Infinity\<close> and \<^verbatim>\<open>-Infinity\<close>; that
  start is \<open>None\<close> here, and it is what \<^verbatim>\<open>!Number.isFinite(minX)\<close> detects at the end.
\<close>

definition growBox :: "real \<Rightarrow> vec3 \<Rightarrow> (vec3 \<times> vec3) option \<Rightarrow> (vec3 \<times> vec3) option" where
  "growBox half cube box =
     (case box of
        None \<Rightarrow>
          Some (Vec3 (vx cube - half) (vy cube - half) (vz cube - half),
                Vec3 (vx cube + half) (vy cube + half) (vz cube + half))
      | Some (lo, hi) \<Rightarrow>
          Some (Vec3 (min (vx lo) (vx cube - half)) (min (vy lo) (vy cube - half))
                     (min (vz lo) (vz cube - half)),
                Vec3 (max (vx hi) (vx cube + half)) (max (vy hi) (vy cube + half))
                     (max (vz hi) (vz cube + half))))"

text \<open>\<^verbatim>\<open>_computePiecesBoundingBox(renderPieces)\<close>; the result is the \<^verbatim>\<open>volume\<close> field.\<close>

definition computePiecesBoundingBox :: "renderPiece list \<Rightarrow> real" where
  "computePiecesBoundingBox renderPieces =
     (let half = cubeSize * (1 / 2);
          box = fold (\<lambda>piece. fold (growBox half) (cubes piece)) renderPieces None
      in case box of
           None \<Rightarrow> 0
         | Some (lo, hi) \<Rightarrow>
             max 0 (vx hi - vx lo) * max 0 (vy hi - vy lo) * max 0 (vz hi - vz lo))"

record metrics =
  excess :: real
  currentVolume :: real
  tightVolume :: real

text \<open>\<^verbatim>\<open>_computeBoundingBoxMetrics()\<close>.\<close>

definition computeBoundingBoxMetrics :: "solution \<Rightarrow> state \<Rightarrow> metrics" where
  "computeBoundingBoxMetrics sol st =
     (let currentPieces = getRenderPieces (explodeAmount st) (getPieceOffset st) sol;
          tightestPieces = getRenderPieces (explodeAmount st) (\<lambda>i. ZERO_OFFSET) sol;
          currentBox = computePiecesBoundingBox currentPieces;
          tightBox = computePiecesBoundingBox tightestPieces;
          safeTightVolume = max (1 / 1000000) tightBox;
          e = max 0 ((currentBox - safeTightVolume) / safeTightVolume)
      in \<lparr> excess = e, currentVolume = currentBox, tightVolume = tightBox \<rparr>)"

section \<open>The reassemble affordance and the explode slider\<close>

text \<open>\<^verbatim>\<open>_setReassembleButtonVisible(visible)\<close>.\<close>

definition setReassembleButtonVisible :: "bool \<Rightarrow> state \<Rightarrow> state" where
  "setReassembleButtonVisible visible st =
     (if reassembleButtonVisible st = visible then st
      else
        let st1 = st\<lparr>reassembleButtonVisible := visible\<rparr>;
            st2 = (if visible
                   then st1\<lparr>reassembleVisibleSinceSec := timeSec st1,
                            reassembleHideCandidateSinceSec := 0\<rparr>
                   else st1\<lparr>reassembleHideCandidateSinceSec := 0\<rparr>)
        in case reassembleButton st2 of
             None \<Rightarrow> st2
           | Some h \<Rightarrow> st2\<lparr>reassembleButton := Some (\<not> visible)\<rparr>)"

text \<open>
  \<^verbatim>\<open>setReassembleButton(button)\<close>: the argument is the \<^verbatim>\<open>hidden\<close> property of the
  button handed in, \<open>None\<close> when no button is. (Binding the click listener, which calls
  \<^verbatim>\<open>startReassembleAnimation\<close>, is not part of the state.)
\<close>

definition setReassembleButton :: "bool option \<Rightarrow> state \<Rightarrow> state" where
  "setReassembleButton button st =
     (case button of
        None \<Rightarrow> st\<lparr>reassembleButton := None\<rparr>
      | Some h \<Rightarrow> st\<lparr>reassembleButton := Some True, reassembleButtonVisible := False\<rparr>)"

text \<open>
  \<^verbatim>\<open>_syncExplodeSlider()\<close>. \<^verbatim>\<open>Math.round\<close> rounds halves up; the slider's string value
  is modelled by the integer it spells.
\<close>

definition syncExplodeSlider :: "state \<Rightarrow> state" where
  "syncExplodeSlider st =
     (case explodeSlider st of
        None \<Rightarrow> st
      | Some shown \<Rightarrow>
          let clamped = max 0 (min 2 (explodeAmount st));
              sliderValue = \<lfloor>clamped * 50 + 1 / 2\<rfloor>
          in if sliderValue \<noteq> shown then st\<lparr>explodeSlider := Some sliderValue\<rparr> else st)"

text \<open>\<^verbatim>\<open>setExplode(amount)\<close> of \<^verbatim>\<open>IntroRenderer\<close>.\<close>

definition setExplode :: "real \<Rightarrow> state \<Rightarrow> state" where
  "setExplode amount st = syncExplodeSlider (st\<lparr>explodeAmount := amount\<rparr>)"

section \<open>Hold gesture\<close>

text \<open>
  \<^verbatim>\<open>_cancelHold(unlockCamera)\<close>. \<^verbatim>\<open>window.clearTimeout\<close> removes the timer from the
  pending ones.
\<close>

definition cancelHold :: "bool \<Rightarrow> state \<Rightarrow> state" where
  "cancelHold unlockCamera st =
     (case pressState st of
        None \<Rightarrow> (if unlockCamera then st\<lparr>cameraInputLocked := False\<rparr> else st)
      | Some p \<Rightarrow>
          let wasActive = active p;
              idx = pressPieceIndex p;
              st1 = st\<lparr>pendingTimers := removeAll (timerId p) (pendingTimers st),
                       pressState := None,
                       draggingPiece := - 1,
                       highlightedPiece := - 1,
                       dragVelocity := Vec3 0 0 0,
                       lastDragMoveSec := 0\<rparr>;
              st2 = (if wasActive \<and> 0 \<le> idx \<and> nat idx < length (pieceVelocities st1)
                     then st1\<lparr>pieceVelocities := (pieceVelocities st1)[nat idx := Vec3 0 0 0]\<rparr>
                     else st1)
          in if unlockCamera \<or> wasActive then st2\<lparr>cameraInputLocked := False\<rparr> else st2)"

text \<open>
  \<^verbatim>\<open>_beginHold(kind, id, clientX, clientY)\<close>. The ray cast \<^verbatim>\<open>_pickPieceAt\<close> depends on
  the canvas rectangle and the camera; it is the parameter \<open>pickPieceAt\<close>, applied to the
  state at the moment of the call and the pointer position, and answers a piece index or
  \<open>-1\<close>. The new press-state object gets the identity \<open>nextRef\<close>, and its timer is
  added to the pending ones.
\<close>

definition beginHold ::
  "(state \<Rightarrow> real \<Rightarrow> real \<Rightarrow> int) \<Rightarrow> gesture \<Rightarrow> int \<Rightarrow> real \<Rightarrow> real \<Rightarrow> state \<Rightarrow> state" where
  "beginHold pickPieceAt kind ident clientX clientY st =
     (case reassembleState st of
        Some rs \<Rightarrow> st
      | None \<Rightarrow>
          let st1 = cancelHold False st;
              picked = pickPieceAt st1 clientX clientY
          in if picked < 0 then st1
             else
               let p = \<lparr> pressRef = nextRef st1,
                         pressKind = kind,
                         pressId = ident,
                         pressPieceIndex = picked,
                         startX = clientX,
                         startY = clientY,
                         lastX = clientX,
                         lastY = clientY,
                         dragDistancePx = 0,
                         active = False,
                         timerId = nextRef st1 \<rparr>
               in st1\<lparr>pressState := Some p,
                       pendingTimers := pendingTimers st1 @ [nextRef st1],
                       nextRef := nextRef st1 + 1\<rparr>)"

text \<open>
  The function handed to \<^verbatim>\<open>window.setTimeout\<close> in \<^verbatim>\<open>_beginHold\<close>. \<open>ref\<close> is the
  identity of the press-state object the closure captured, \<open>nowSec\<close> is
  \<^verbatim>\<open>performance.now() / 1000\<close> when it runs. While the captured object is the current
  one, its fields are those of \<open>pressState\<close>; its piece index was answered by
  \<^verbatim>\<open>_pickPieceAt\<close> and is not negative.
\<close>

definition holdTimerCallback :: "nat \<Rightarrow> real \<Rightarrow> state \<Rightarrow> state" where
  "holdTimerCallback ref nowSec st =
     (case pressState st of
        None \<Rightarrow> st
      | Some p \<Rightarrow>
          if pressRef p \<noteq> ref then st
          else
            let moveDist = hypot2 (lastX p - startX p) (lastY p - startY p)
            in if moveDist > holdMoveThresholdPx (settings st) then st
               else st\<lparr>pressState := Some (p\<lparr>active := True\<rparr>),
                       draggingPiece := pressPieceIndex p,
                       highlightedPiece := pressPieceIndex p,
                       dragVelocity := Vec3 0 0 0,
                       lastDragMoveSec := nowSec,
                       pieceVelocities := (pieceVelocities st)[nat (pressPieceIndex p) := Vec3 0 0 0],
                       cameraInputLocked := True\<rparr>)"

text \<open>The browser runs a timer's function once, and only while the timer is pending.\<close>

definition fireHoldTimer :: "nat \<Rightarrow> real \<Rightarrow> state \<Rightarrow> state" where
  "fireHoldTimer ref nowSec st =
     (if ref \<in> set (pendingTimers st)
      then holdTimerCallback ref nowSec (st\<lparr>pendingTimers := removeAll ref (pendingTimers st)\<rparr>)
      else st)"

section \<open>Reassembly animation\<close>

text \<open>\<^verbatim>\<open>_easeInOutCubic(t)\<close>.\<close>

definition easeInOutCubic :: "real \<Rightarrow> real" where
  "easeInOutCubic t =
     (if t \<le> 0 then 0
      else if t \<ge> 1 then 1
      else if t < 1 / 2 then 4 * t * t * t
      else 1 - (- 2 * t + 2) ^ 3 / 2)"

text \<open>
  The ranking of \<^verbatim>\<open>startReassembleAnimation\<close>: the pieces with their start-offset
  magnitudes, sorted by descending magnitude. \<^verbatim>\<open>Array.prototype.sort\<close> is stable, and so
  is \<open>sort_key\<close>.
\<close>

definition rankPieces :: "vec3 list \<Rightarrow> (nat \<times> real) list" where
  "rankPieces offsets =
     sort_key (\<lambda>e. - snd e)
       (map (\<lambda>(i, offset). (i, hypot3 (vx offset) (vy offset) (vz offset))) (enumerate 0 offsets))"

text \<open>
  The delays: \<^verbatim>\<open>delays[sorted[rank].pieceIndex] = rank * this._reassembleStagger\<close> on an
  array of \<^verbatim>\<open>PIECES.length\<close> zeros.
\<close>

definition assignDelays :: "real \<Rightarrow> (nat \<times> real) list \<Rightarrow> real list" where
  "assignDelays stagger ranked =
     fold (\<lambda>(rank, e) ds. ds[fst e := real rank * stagger]) (enumerate 0 ranked)
       (replicate PIECES_length 0)"

text \<open>\<^verbatim>\<open>Math.max(...delays)\<close>, for the non-empty array of delays.\<close>

definition maxDelay :: "real list \<Rightarrow> real" where
  "maxDelay ds = fold max (tl ds) (hd ds)"

text \<open>\<^verbatim>\<open>startReassembleAnimation()\<close>.\<close>

definition startReassembleAnimation :: "state \<Rightarrow> state" where
  "startReassembleAnimation st =
     (case reassembleState st of
        Some rs \<Rightarrow> st
      | None \<Rightarrow>
          let st1 = (if draggingPiece st \<ge> 0 then cancelHold True st else st);
              starts = pieceOffsets st1;
              ds = assignDelays (reassembleStagger (settings st1)) (rankPieces starts);
              pieceDuration = reassemblePieceDuration (settings st1);
              rs = \<lparr> startTime = timeSec st1,
                     startOffsets = starts,
                     delays = ds,
                     duration = pieceDuration,
                     totalDuration = max pieceDuration (pieceDuration + maxDelay ds),
                     startExplodeAmount = explodeAmount st1 \<rparr>;
              st2 = st1\<lparr>reassembleState := Some rs,
                        pieceVelocities := map (\<lambda>v. Vec3 0 0 0) (pieceVelocities st1),
                        recoveryAttemptCount := 0\<rparr>
          in setReassembleButtonVisible False st2)"

text \<open>
  The body of the loop over the pieces in \<^verbatim>\<open>_stepReassembleAnimation\<close>; the flag is
  the local variable \<^verbatim>\<open>allDone\<close>.
\<close>

definition reassemblePiece :: "reassemble \<Rightarrow> real \<Rightarrow> nat \<Rightarrow> state \<times> bool \<Rightarrow> state \<times> bool" where
  "reassemblePiece rs elapsed i sa =
     (let st = fst sa;
          allDone = snd sa;
          delay = delays rs ! i;
          startOffset = startOffsets rs ! i;
          localT = (elapsed - delay) / duration rs
      in if localT \<le> 0
         then (st\<lparr>pieceOffsets := (pieceOffsets st)[i := startOffset],
                  pieceVelocities := (pieceVelocities st)[i := Vec3 0 0 0]\<rparr>, False)
         else if localT \<ge> 1
         then (st\<lparr>pieceOffsets := (pieceOffsets st)[i := Vec3 0 0 0],
                  pieceVelocities := (pieceVelocities st)[i := Vec3 0 0 0]\<rparr>, allDone)
         else
           let eased = easeInOutCubic localT;
               inv = 1 - eased
           in (st\<lparr>pieceOffsets := (pieceOffsets st)[i := Vec3 (vx startOffset * inv)
                         (vy startOffset * inv) (vz startOffset * inv)],
                   pieceVelocities := (pieceVelocities st)[i := Vec3 0 0 0]\<rparr>, False))"

text \<open>\<^verbatim>\<open>_stepReassembleAnimation()\<close>.\<close>

definition stepReassembleAnimation :: "state \<Rightarrow> state" where
  "stepReassembleAnimation st =
     (case reassembleState st of
        None \<Rightarrow> st
      | Some rs \<Rightarrow>
          let elapsed = timeSec st - startTime rs;
              explodeProgress = min 1 (max 0 (elapsed / totalDuration rs));
              explodeEased = easeInOutCubic explodeProgress;
              st1 = syncExplodeSlider
                      (st\<lparr>explodeAmount := startExplodeAmount rs * (1 - explodeEased)\<rparr>);
              looped = fold (reassemblePiece rs elapsed) [0..<PIECES_length] (st1, True);
              st2 = fst looped;
              allDone = snd looped
          in if allDone
             then
               let st3 = syncExplodeSlider (st2\<lparr>reassembleState := None, explodeAmount := 0\<rparr>)
               in setReassembleButtonVisible False (st3\<lparr>bboxExcess := 0, recoveryAttemptCount := 0\<rparr>)
             else st2)"

section \<open>Struggle detection\<close>

text \<open>
  The loop of \<^verbatim>\<open>_isAnyPieceMoving\<close>: the running \<^verbatim>\<open>maxDelta\<close> and the array
  \<^verbatim>\<open>_lastMotionOffsets\<close>, which the loop overwrites.
\<close>

definition motionDelta :: "vec3 list \<Rightarrow> nat \<Rightarrow> real \<times> vec3 list \<Rightarrow> real \<times> vec3 list" where
  "motionDelta offsets i ml =
     (let maxDelta = fst ml;
          lasts = snd ml;
          current = offsets ! i;
          prev = lasts ! i;
          dx = vx current - vx prev;
          dy = vy current - vy prev;
          dz = vz current - vz prev;
          delta = hypot3 dx dy dz
      in (if delta > maxDelta then delta else maxDelta, lasts[i := current]))"

text \<open>\<^verbatim>\<open>_isAnyPieceMoving()\<close>: the answer and the state after the call.\<close>

definition isAnyPieceMoving :: "state \<Rightarrow> bool \<times> state" where
  "isAnyPieceMoving st =
     (if draggingPiece st \<ge> 0 then (True, st)
      else case reassembleState st of
        Some rs \<Rightarrow> (True, st)
      | None \<Rightarrow>
          let ml = fold (motionDelta (pieceOffsets st)) [0..<length (pieceOffsets st)]
                     (0, lastMotionOffsets st)
          in (fst ml > movingFrameThreshold (settings st), st\<lparr>lastMotionOffsets := snd ml\<rparr>))"

text \<open>\<^verbatim>\<open>_updateStruggleDetection()\<close>.\<close>

definition updateStruggleDetection :: "solution \<Rightarrow> state \<Rightarrow> state" where
  "updateStruggleDetection sol st =
     (if cameraPageScrolling st then st
      else
        let c = settings st;
            m = computeBoundingBoxMetrics sol st;
            st1 = st\<lparr>bboxExcess := excess m\<rparr>;
            explodedForShow = (explodeAmount st1 \<ge> reassembleExplodeShowThreshold c);
            explodedForHide = (explodeAmount st1 \<ge> reassembleExplodeHideThreshold c);
            st2 = (if excess m \<le> bboxSolvedThreshold c then st1\<lparr>recoveryAttemptCount := 0\<rparr> else st1);
            mv = isAnyPieceMoving st2;
            moving = fst mv;
            st3 = snd mv;
            st4 = (if moving then st3\<lparr>settledStillTime := 0\<rparr>
                   else st3\<lparr>settledStillTime :=
                          min (settleDelaySec c + 1) (settledStillTime st3 + max 0 (deltaTime st3))\<rparr>);
            animating = (case reassembleState st4 of None \<Rightarrow> False | Some rs \<Rightarrow> True);
            canShow = (\<not> animating \<and> draggingPiece st4 < 0
                       \<and> (excess m \<ge> bboxExcessThreshold c \<or> explodedForShow)
                       \<and> settledStillTime st4 \<ge> settleDelaySec c)
        in if \<not> reassembleButtonVisible st4
           then (if canShow then setReassembleButtonVisible True st4 else st4)
           else
             let minVisibleElapsed = timeSec st4 - reassembleVisibleSinceSec st4
             in if minVisibleElapsed < reassembleMinVisibleSec c then st4
                else
                  let shouldHide = (animating \<or> draggingPiece st4 \<ge> 0 \<or> moving
                                    \<or> (excess m < reassembleHideExcessThreshold c \<and> \<not> explodedForHide))
                  in if \<not> shouldHide then st4\<lparr>reassembleHideCandidateSinceSec := 0\<rparr>
                     else if reassembleHideCandidateSinceSec st4 = 0
                     then st4\<lparr>reassembleHideCandidateSinceSec := timeSec st4\<rparr>
                     else if timeSec st4 - reassembleHideCandidateSinceSec st4 \<ge> reassembleHideDelaySec c
                     then setReassembleButtonVisible False st4
                     else st4)"

section \<open>Spring-damper integration and collisions\<close>

text \<open>The body of the loop of \<^verbatim>\<open>_integratePieceMotion\<close> for piece \<open>i\<close>.\<close>

definition integratePiece :: "real \<Rightarrow> real \<Rightarrow> nat \<Rightarrow> state \<Rightarrow> state" where
  "integratePiece stepDt damping i st =
     (if int i = draggingPiece st then st
      else
        let c = settings st;
            offset = pieceOffsets st ! i;
            velocity = pieceVelocities st ! i;
            v1 = Vec3 (vx velocity + - vx offset * springStrength c * stepDt)
                      (vy velocity + (- vy offset * springStrength c - gravityStrength c) * stepDt)
                      (vz velocity + - vz offset * springStrength c * stepDt);
            v2 = Vec3 (vx v1 * damping) (vy v1 * damping) (vz v1 * damping);
            o1 = Vec3 (vx offset + vx v2 * stepDt) (vy offset + vy v2 * stepDt)
                      (vz offset + vz v2 * stepDt)
        in st\<lparr>pieceVelocities := (pieceVelocities st)[i := v2],
               pieceOffsets := (pieceOffsets st)[i := o1]\<rparr>)"

text \<open>\<^verbatim>\<open>_integratePieceMotion(stepDt)\<close>.\<close>

definition integratePieceMotion :: "real \<Rightarrow> state \<Rightarrow> state" where
  "integratePieceMotion stepDt st =
     (let damping = exp (- linearDamping (settings st) * stepDt);
          st1 = fold (integratePiece stepDt damping) [0..<length (pieceOffsets st)] st
      in if draggingPiece st1 \<ge> 0
         then
           let dragDecay = exp (- 18 * stepDt);
               dv = Vec3 (vx (dragVelocity st1) * dragDecay) (vy (dragVelocity st1) * dragDecay)
                         (vz (dragVelocity st1) * dragDecay)
           in st1\<lparr>dragVelocity := dv,
                   pieceVelocities := (pieceVelocities st1)[nat (draggingPiece st1) := dv]\<rparr>
         else st1)"

text \<open>The body of the loop of \<^verbatim>\<open>_trimTinyMotion\<close> for piece \<open>i\<close>.\<close>

definition trimPiece :: "nat \<Rightarrow> state \<Rightarrow> state" where
  "trimPiece i st =
     (if int i = draggingPiece st then st
      else
        let offset = pieceOffsets st ! i;
            velocity = pieceVelocities st ! i;
            offsetSmall = (\<bar>vx offset\<bar> < 5 / 10000 \<and> \<bar>vy offset\<bar> < 5 / 10000 \<and> \<bar>vz offset\<bar> < 5 / 10000);
            velocitySmall = (\<bar>vx velocity\<bar> < 4 / 1000 \<and> \<bar>vy velocity\<bar> < 4 / 1000
                             \<and> \<bar>vz velocity\<bar> < 4 / 1000)
        in if offsetSmall \<and> velocitySmall
           then st\<lparr>pieceOffsets := (pieceOffsets st)[i := Vec3 0 0 0],
                   pieceVelocities := (pieceVelocities st)[i := Vec3 0 0 0]\<rparr>
           else st)"

text \<open>\<^verbatim>\<open>_trimTinyMotion()\<close>.\<close>

definition trimTinyMotion :: "state \<Rightarrow> state" where
  "trimTinyMotion st = fold trimPiece [0..<length (pieceOffsets st)] st"

text \<open>\<^verbatim>\<open>_dot(a, b)\<close>.\<close>

definition dot :: "vec3 \<Rightarrow> vec3 \<Rightarrow> real" where
  "dot a b = vx a * vx b + vy a * vy b + vz a * vz b"

text \<open>
  \<^verbatim>\<open>_buildPiecesByIndex()\<close>: an array of \<^verbatim>\<open>PIECES.length\<close> slots, each empty or
  holding the rendered piece with that index.
\<close>

definition buildPiecesByIndex :: "solution \<Rightarrow> state \<Rightarrow> renderPiece option list" where
  "buildPiecesByIndex sol st =
     fold (\<lambda>piece arr. if 0 \<le> pieceIndex piece then arr[nat (pieceIndex piece) := Some piece] else arr)
       (getRenderPieces (explodeAmount st) (getPieceOffset st) sol)
       (replicate PIECES_length None)"

text \<open>\<^verbatim>\<open>piecesByIndex[k]\<close> for a number \<open>k\<close> that may be \<open>-1\<close> or past the end.\<close>

definition pieceAt :: "renderPiece option list \<Rightarrow> int \<Rightarrow> renderPiece option" where
  "pieceAt piecesByIndex k =
     (if 0 \<le> k \<and> nat k < length piecesByIndex then piecesByIndex ! nat k else None)"

text \<open>The body of the loop of \<^verbatim>\<open>_applyDragInteractions\<close> for piece \<open>i\<close>.\<close>

definition dragInteractPiece ::
  "renderPiece \<Rightarrow> renderPiece option list \<Rightarrow> real \<Rightarrow> nat \<Rightarrow> state \<Rightarrow> state" where
  "dragInteractPiece dragged piecesByIndex stepDt i st =
     (if int i = draggingPiece st then st
      else case piecesByIndex ! i of
        None \<Rightarrow> st
      | Some other \<Rightarrow>
          (case getPieceContact (settings st) dragged other of
             None \<Rightarrow> st
           | Some contact \<Rightarrow>
               let c = settings st;
                   n = normal contact;
                   offset = pieceOffsets st ! i;
                   velocity = pieceVelocities st ! i;
                   dv = dragVelocity st;
                   relativeApproach = max 0 (dot dv n - dot velocity n);
                   impulse = collisionImpulse c + relativeApproach * collisionVelocityScale c
                             + penetration contact * (1 / 2);
                   v1 = Vec3 (vx velocity + vx n * impulse) (vy velocity + vy n * impulse)
                             (vz velocity + vz n * impulse);
                   correction = max 0 (penetration contact + touchEpsilon c * (1 / 2)) * collisionPush c;
                   o1 = Vec3 (vx offset + vx n * correction) (vy offset + vy n * correction)
                             (vz offset + vz n * correction);
                   tangentX = vx dv - vx n * dot dv n;
                   tangentY = vy dv - vy n * dot dv n;
                   tangentZ = vz dv - vz n * dot dv n;
                   v2 = Vec3 (vx v1 + tangentX * (4 / 100) * stepDt) (vy v1 + tangentY * (4 / 100) * stepDt)
                             (vz v1 + tangentZ * (4 / 100) * stepDt)
               in st\<lparr>pieceVelocities := (pieceVelocities st)[i := v2],
                      pieceOffsets := (pieceOffsets st)[i := o1]\<rparr>))"

text \<open>\<^verbatim>\<open>_applyDragInteractions(piecesByIndex, stepDt)\<close>.\<close>

definition applyDragInteractions :: "renderPiece option list \<Rightarrow> real \<Rightarrow> state \<Rightarrow> state" where
  "applyDragInteractions piecesByIndex stepDt st =
     (case pieceAt piecesByIndex (draggingPiece st) of
        None \<Rightarrow> st
      | Some dragged \<Rightarrow>
          let dragSpeed = hypot3 (vx (dragVelocity st)) (vy (dragVelocity st)) (vz (dragVelocity st))
          in if dragSpeed < 1 / 100 then st
             else fold (dragInteractPiece dragged piecesByIndex stepDt) [0..<length piecesByIndex] st)"

text \<open>The body of the inner loop of \<^verbatim>\<open>_resolveDynamicPieceCollisions\<close> for the pair \<open>i < j\<close>.\<close>

definition resolvePair :: "renderPiece \<Rightarrow> renderPiece option list \<Rightarrow> nat \<Rightarrow> nat \<Rightarrow> state \<Rightarrow> state" where
  "resolvePair pieceI piecesByIndex i j st =
     (if int j = draggingPiece st then st
      else case piecesByIndex ! j of
        None \<Rightarrow> st
      | Some pieceJ \<Rightarrow>
          (case getPieceContact (settings st) pieceI pieceJ of
             None \<Rightarrow> st
           | Some contact \<Rightarrow>
               let n = normal contact;
                   pen = penetration contact;
                   offsetA = pieceOffsets st ! i;
                   offsetB = pieceOffsets st ! j;
                   correction = pen * (1 / 2);
                   offsetA1 = (if pen > 0
                               then Vec3 (vx offsetA - vx n * correction) (vy offsetA - vy n * correction)
                                         (vz offsetA - vz n * correction)
                               else offsetA);
                   offsetB1 = (if pen > 0
                               then Vec3 (vx offsetB + vx n * correction) (vy offsetB + vy n * correction)
                                         (vz offsetB + vz n * correction)
                               else offsetB);
                   velA = pieceVelocities st ! i;
                   velB = pieceVelocities st ! j;
                   relativeNormalVelocity = (vx velB - vx velA) * vx n + (vy velB - vy velA) * vy n
                                            + (vz velB - vz velA) * vz n;
                   impulse = - (1 + pairRestitution (settings st)) * relativeNormalVelocity * (1 / 2);
                   velA1 = (if relativeNormalVelocity < 0
                            then Vec3 (vx velA - vx n * impulse) (vy velA - vy n * impulse)
                                      (vz velA - vz n * impulse)
                            else velA);
                   velB1 = (if relativeNormalVelocity < 0
                            then Vec3 (vx velB + vx n * impulse) (vy velB + vy n * impulse)
                                      (vz velB + vz n * impulse)
                            else velB)
               in st\<lparr>pieceOffsets := (pieceOffsets st)[i := offsetA1, j := offsetB1],
                      pieceVelocities := (pieceVelocities st)[i := velA1, j := velB1]\<rparr>))"

text \<open>\<^verbatim>\<open>_resolveDynamicPieceCollisions(piecesByIndex)\<close>.\<close>

definition resolveDynamicPieceCollisions :: "renderPiece option list \<Rightarrow> state \<Rightarrow> state" where
  "resolveDynamicPieceCollisions piecesByIndex st =
     fold (\<lambda>i s. if int i = draggingPiece s then s
                  else case piecesByIndex ! i of
                    None \<Rightarrow> s
                  | Some pieceI \<Rightarrow>
                      fold (resolvePair pieceI piecesByIndex i) [i + 1..<length piecesByIndex] s)
       [0..<length piecesByIndex] st"

text \<open>\<^verbatim>\<open>_solvePieceCollisions(stepDt)\<close>.\<close>

definition solvePieceCollisions :: "solution \<Rightarrow> real \<Rightarrow> state \<Rightarrow> state" where
  "solvePieceCollisions sol stepDt st =
     (let piecesByIndex = buildPiecesByIndex sol st;
          st1 = (if draggingPiece st \<ge> 0 then applyDragInteractions piecesByIndex stepDt st else st)
      in resolveDynamicPieceCollisions (buildPiecesByIndex sol st1) st1)"

section \<open>The frame\<close>

text \<open>
  The part of \<^verbatim>\<open>_setupFrame\<close> that touches the state, for the time
  \<^verbatim>\<open>performance.now() / 1000\<close> of the frame. The rest talks to WebGL, whose context and
  program are taken to exist (without them nothing is rendered and nothing changes).
\<close>

definition setupFrame :: "real \<Rightarrow> state \<Rightarrow> state" where
  "setupFrame nowSec st =
     st\<lparr>deltaTime := max 0 (min (1 / 10) (nowSec - timeSec st)), timeSec := nowSec\<rparr>"

text \<open>
  The two local constants of \<^verbatim>\<open>_beforeRenderSolution\<close>:
  \<^verbatim>\<open>substeps = Math.max(1, Math.min(4, Math.ceil(dt / 0.012)))\<close> and
  \<^verbatim>\<open>stepDt = dt / substeps\<close>.
\<close>

definition substeps :: "real \<Rightarrow> nat" where
  "substeps dt = nat (max 1 (min 4 \<lceil>dt / (12 / 1000)\<rceil>))"

definition stepDtOf :: "real \<Rightarrow> real" where
  "stepDtOf dt = dt / real (substeps dt)"

text \<open>The body of the sub-step loop.\<close>

definition physicsSubstep :: "solution \<Rightarrow> real \<Rightarrow> state \<Rightarrow> state" where
  "physicsSubstep sol stepDt st =
     trimTinyMotion (solvePieceCollisions sol stepDt (integratePieceMotion stepDt st))"

text \<open>\<^verbatim>\<open>_beforeRenderSolution()\<close>.\<close>

definition beforeRenderSolution :: "solution \<Rightarrow> state \<Rightarrow> state" where
  "beforeRenderSolution sol st =
     (case reassembleState st of
        Some rs \<Rightarrow> updateStruggleDetection sol (stepReassembleAnimation st)
      | None \<Rightarrow>
          let dt = deltaTime st
          in if dt \<le> 0 then st
             else updateStruggleDetection sol
                    ((physicsSubstep sol (stepDtOf dt) ^^ substeps dt) st))"

text \<open>
  The state changes of one call of \<^verbatim>\<open>render()\<close> at the time \<open>nowSec\<close>: the frame
  set-up, then \<^verbatim>\<open>_beforeRenderSolution\<close> (drawing changes nothing).
\<close>

definition render :: "real \<Rightarrow> solution \<Rightarrow> state \<Rightarrow> state" where
  "render nowSec sol st = beforeRenderSolution sol (setupFrame nowSec st)"

section \<open>Auxiliary functions for the proofs\<close>

text \<open>
  What one pair of cubes adds to each of the three sums of \<^verbatim>\<open>_getPieceContact\<close>:
  the component of its normal times its weight, or nothing when the pair is not in contact.
\<close>

definition wX :: "config \<Rightarrow> vec3 \<Rightarrow> vec3 \<Rightarrow> real" where
  "wX c a b = (case getCubeContact c a b of None \<Rightarrow> 0
     | Some k \<Rightarrow> vx (cubeNormal k) * max (5 / 1000) (cubePenetration k + touchEpsilon c))"
definition wY :: "config \<Rightarrow> vec3 \<Rightarrow> vec3 \<Rightarrow> real" where
  "wY c a b = (case getCubeContact c a b of None \<Rightarrow> 0
     | Some k \<Rightarrow> vy (cubeNormal k) * max (5 / 1000) (cubePenetration k + touchEpsilon c))"
definition wZ :: "config \<Rightarrow> vec3 \<Rightarrow> vec3 \<Rightarrow> real" where
  "wZ c a b = (case getCubeContact c a b of None \<Rightarrow> 0
     | Some k \<Rightarrow> vz (cubeNormal k) * max (5 / 1000) (cubePenetration k + touchEpsilon c))"

text \<open>
  What \<^verbatim>\<open>_updateStruggleDetection\<close> reads to decide whether the affordance is still too
  young to be hidden.
\<close>

definition affordance :: "state \<Rightarrow> bool \<times> real \<times> real \<times> config" where
  "affordance st =
     (reassembleButtonVisible st, reassembleVisibleSinceSec st, timeSec st, settings st)"

text \<open>
  A state in which the affordance has just been shown: a freshly constructed renderer at
  time 5 whose explode amount is 1 and which has been still for a second, after one call
  of \<^verbatim>\<open>_updateStruggleDetection\<close>.
\<close>

definition shownState :: state where
  "shownState =
     updateStruggleDetection []
       ((initialState defaultConfig 5)\<lparr>explodeAmount := 1, settledStillTime := 1\<rparr>)"

text \<open>
  The spring scenario: a renderer with default constants except gravity 0 (spring
  strength 20, damping 8) that holds one piece, not dragged, at offset \<open>[2, 0, 0]\<close> and
  at rest.
\<close>

definition springScenario :: state where
  "springScenario =
     (initialState (defaultConfig\<lparr>gravityStrength := 0\<rparr>) 0)\<lparr>
        pieceOffsets := [Vec3 2 0 0],
        pieceVelocities := [Vec3 0 0 0],
        lastMotionOffsets := [Vec3 2 0 0]\<rparr>"

text \<open>
  One step of the scenario: \<^verbatim>\<open>_integratePieceMotion(1 / 60)\<close> followed by
  \<^verbatim>\<open>_trimTinyMotion()\<close>, the snap to rest.
\<close>

definition springStep :: "state \<Rightarrow> state" where
  "springStep st = trimTinyMotion (integratePieceMotion (1 / 60) st)"

text \<open>The states the scenario runs through: the piece at \<open>[x, 0, 0]\<close> with velocity \<open>[v, 0, 0]\<close>.\<close>

definition springState :: "real \<Rightarrow> real \<Rightarrow> state" where
  "springState x v = springScenario\<lparr>pieceOffsets := [Vec3 x 0 0], pieceVelocities := [Vec3 v 0 0]\<rparr>"

text \<open>What a reassembly animation acts on: the offsets, the explode amount and its own state.\<close>

definition animationCore :: "state \<Rightarrow> vec3 list \<times> real \<times> reassemble option" where
  "animationCore st = (pieceOffsets st, explodeAmount st, reassembleState st)"

section \<open>Properties of the contact solver\<close>

lemma getCubeContact_separated:
  assumes "\<bar>vx b - vx a\<bar> > cubeSize + touchEpsilon cfg
         \<or> \<bar>vy b - vy a\<bar> > cubeSize + touchEpsilon cfg
         \<or> \<bar>vz b - vz a\<bar> > cubeSize + touchEpsilon cfg"
  shows "getCubeContact cfg a b = None"
  using assms unfolding getCubeContact_def Let_def by auto

lemma fold_accumulate_none:
  assumes "\<forall>b \<in> set bs. getCubeContact cfg a b = None"
  shows "fold (accumulateContact cfg a) bs acc = acc"
  using assms by (induction bs arbitrary: acc) (simp_all add: accumulateContact_def)

lemma contactLoop_none:
  assumes "\<forall>a \<in> set as. \<forall>b \<in> set bs. getCubeContact cfg a b = None"
  shows "contactLoop cfg as bs acc = acc"
  using assms unfolding contactLoop_def
  by (induction as arbitrary: acc) (simp_all add: fold_accumulate_none)

text \<open>
  Claim C1. When every cube of piece A and every cube of piece B are further apart than
  \<open>cubeSize\<close> plus the touch tolerance along at least one axis, \<^verbatim>\<open>_getPieceContact\<close>
  returns no contact.
\<close>

theorem getPieceContact_separated_none:
  assumes "\<forall>a \<in> set (cubes pieceA). \<forall>b \<in> set (cubes pieceB).
             \<bar>vx b - vx a\<bar> > cubeSize + touchEpsilon cfg
           \<or> \<bar>vy b - vy a\<bar> > cubeSize + touchEpsilon cfg
           \<or> \<bar>vz b - vz a\<bar> > cubeSize + touchEpsilon cfg"
  shows "getPieceContact cfg pieceA pieceB = None"
proof -
  have "\<forall>a \<in> set (cubes pieceA). \<forall>b \<in> set (cubes pieceB). getCubeContact cfg a b = None"
    using assms getCubeContact_separated by blast
  then have "contactLoop cfg (cubes pieceA) (cubes pieceB) contactAcc0 = contactAcc0"
    by (rule contactLoop_none)
  then show ?thesis
    by (simp add: getPieceContact_def contactAcc0_def)
qed

theorem getPieceContact_separated_none_witness:
  "getPieceContact defaultConfig
     \<lparr> pieceIndex = 0, center = Vec3 0 0 0, cubes = [Vec3 0 0 0, Vec3 1 0 0] \<rparr>
     \<lparr> pieceIndex = 1, center = Vec3 3 0 0, cubes = [Vec3 3 0 0, Vec3 3 1 0] \<rparr> = None"
  by (rule getPieceContact_separated_none) (simp add: defaultConfig_def cubeSize_def)

text \<open>
  The result of \<^verbatim>\<open>_getCubeContact\<close> by cases on the axis of least overlap; ties go to
  the earlier axis, as the strict comparisons of the source decide.
\<close>

lemma getCubeContact_alt:
  "getCubeContact c a b =
    (let dx = vx b - vx a; dy = vy b - vy a; dz = vz b - vz a in
     if cubeSize + touchEpsilon c < \<bar>dx\<bar> \<or> cubeSize + touchEpsilon c < \<bar>dy\<bar> \<or> cubeSize + touchEpsilon c < \<bar>dz\<bar> then None
     else if \<bar>dz\<bar> > \<bar>dx\<bar> \<and> \<bar>dz\<bar> > \<bar>dy\<bar>
       then Some \<lparr> cubeNormal = Vec3 0 0 (if dz \<ge> 0 then 1 else - 1), cubePenetration = max 0 (cubeSize - \<bar>dz\<bar>) \<rparr>
     else if \<bar>dy\<bar> > \<bar>dx\<bar>
       then Some \<lparr> cubeNormal = Vec3 0 (if dy \<ge> 0 then 1 else - 1) 0, cubePenetration = max 0 (cubeSize - \<bar>dy\<bar>) \<rparr>
     else Some \<lparr> cubeNormal = Vec3 (if dx \<ge> 0 then 1 else - 1) 0 0, cubePenetration = max 0 (cubeSize - \<bar>dx\<bar>) \<rparr>)"
proof -
  define dx dy dz where "dx = vx b - vx a" and "dy = vy b - vy a" and "dz = vz b - vz a"
  have sep: "(cubeSize - \<bar>dx\<bar> < - touchEpsilon c \<or> cubeSize - \<bar>dy\<bar> < - touchEpsilon c \<or> cubeSize - \<bar>dz\<bar> < - touchEpsilon c)
     = (cubeSize + touchEpsilon c < \<bar>dx\<bar> \<or> cubeSize + touchEpsilon c < \<bar>dy\<bar> \<or> cubeSize + touchEpsilon c < \<bar>dz\<bar>)"
    by linarith
  consider (z) "\<bar>dz\<bar> > \<bar>dx\<bar> \<and> \<bar>dz\<bar> > \<bar>dy\<bar>" | (y) "\<not> (\<bar>dz\<bar> > \<bar>dx\<bar> \<and> \<bar>dz\<bar> > \<bar>dy\<bar>)" "\<bar>dy\<bar> > \<bar>dx\<bar>"
    | (x) "\<not> (\<bar>dz\<bar> > \<bar>dx\<bar> \<and> \<bar>dz\<bar> > \<bar>dy\<bar>)" "\<not> \<bar>dy\<bar> > \<bar>dx\<bar>" by blast
  then show ?thesis
  proof cases
    case z
    then show ?thesis
      unfolding getCubeContact_def Let_def dx_def[symmetric] dy_def[symmetric] dz_def[symmetric] sep
      by (cases "\<bar>dy\<bar> > \<bar>dx\<bar>") auto
  next
    case y
    then show ?thesis
      unfolding getCubeContact_def Let_def dx_def[symmetric] dy_def[symmetric] dz_def[symmetric] sep
      by auto
  next
    case x
    then show ?thesis
      unfolding getCubeContact_def Let_def dx_def[symmetric] dy_def[symmetric] dz_def[symmetric] sep
      by auto
  qed
qed

lemma getCubeContact_self:
  assumes "0 \<le> touchEpsilon c"
  shows "getCubeContact c a a = Some \<lparr> cubeNormal = Vec3 1 0 0, cubePenetration = cubeSize \<rparr>"
  using assms by (simp add: getCubeContact_alt cubeSize_def)

lemma cubePenetration_le:
  assumes "getCubeContact c a b = Some k"
  shows "cubePenetration k \<le> cubeSize"
  using assms unfolding getCubeContact_alt Let_def
  by (auto simp: cubeSize_def max_def split: if_splits)

lemma getCubeContact_swap:
  "getCubeContact c b a =
     (case getCubeContact c a b of
        None \<Rightarrow> None
      | Some k \<Rightarrow>
          Some \<lparr> cubeNormal =
                   (if vx b = vx a \<and> vy b = vy a \<and> vz b = vz a then Vec3 1 0 0
                    else Vec3 (- vx (cubeNormal k)) (- vy (cubeNormal k)) (- vz (cubeNormal k))),
                 cubePenetration = cubePenetration k \<rparr>)"
proof -
  define dx dy dz where "dx = vx b - vx a" and "dy = vy b - vy a" and "dz = vz b - vz a"
  have m: "vx a - vx b = - dx" "vy a - vy b = - dy" "vz a - vz b = - dz"
    by (simp_all add: dx_def dy_def dz_def)
  have z: "(vx b = vx a \<and> vy b = vy a \<and> vz b = vz a) = (dx = 0 \<and> dy = 0 \<and> dz = 0)"
    by (auto simp: dx_def dy_def dz_def)
  show ?thesis
    unfolding getCubeContact_alt Let_def m z dx_def[symmetric] dy_def[symmetric] dz_def[symmetric]
    by (simp add: abs_minus_cancel)
qed

lemma wY_antisym: "wY c b a = - wY c a b"
  unfolding wY_def getCubeContact_swap[of c b a]
  by (cases "getCubeContact c a b") (auto simp: getCubeContact_alt Let_def split: if_splits)

lemma wZ_antisym: "wZ c b a = - wZ c a b"
  unfolding wZ_def getCubeContact_swap[of c b a]
  by (cases "getCubeContact c a b") (auto simp: getCubeContact_alt Let_def split: if_splits)

lemma wX_pair_nonneg: "0 \<le> wX c a b + wX c b a"
  unfolding wX_def getCubeContact_swap[of c b a]
  by (cases "getCubeContact c a b") (auto simp: getCubeContact_alt Let_def split: if_splits)

lemma wX_self: "0 \<le> touchEpsilon c \<Longrightarrow> 5 / 1000 \<le> wX c a a"
  by (simp add: wX_def getCubeContact_self)

lemma accumulate_fields:
  "normalX (accumulateContact c a b acc) = normalX acc + wX c a b"
  "normalY (accumulateContact c a b acc) = normalY acc + wY c a b"
  "normalZ (accumulateContact c a b acc) = normalZ acc + wZ c a b"
  by (simp_all add: accumulateContact_def wX_def wY_def wZ_def Let_def split: option.splits)

lemma fold_accumulate_fields:
  "normalX (fold (accumulateContact c a) bs acc) = normalX acc + (\<Sum>b\<leftarrow>bs. wX c a b)"
  "normalY (fold (accumulateContact c a) bs acc) = normalY acc + (\<Sum>b\<leftarrow>bs. wY c a b)"
  "normalZ (fold (accumulateContact c a) bs acc) = normalZ acc + (\<Sum>b\<leftarrow>bs. wZ c a b)"
  by (induction bs arbitrary: acc; simp add: accumulate_fields)+

lemma contactLoop_fields:
  "normalX (contactLoop c as bs acc) = normalX acc + (\<Sum>a\<leftarrow>as. \<Sum>b\<leftarrow>bs. wX c a b)"
  "normalY (contactLoop c as bs acc) = normalY acc + (\<Sum>a\<leftarrow>as. \<Sum>b\<leftarrow>bs. wY c a b)"
  "normalZ (contactLoop c as bs acc) = normalZ acc + (\<Sum>a\<leftarrow>as. \<Sum>b\<leftarrow>bs. wZ c a b)"
  unfolding contactLoop_def
  by (induction as arbitrary: acc; simp add: fold_accumulate_fields)+

lemma double_sum_cons:
  fixes f :: "'a \<Rightarrow> 'a \<Rightarrow> real"
  shows "(\<Sum>a\<leftarrow>x # xs. \<Sum>b\<leftarrow>x # xs. f a b)
       = f x x + (\<Sum>b\<leftarrow>xs. f x b + f b x) + (\<Sum>a\<leftarrow>xs. \<Sum>b\<leftarrow>xs. f a b)"
  by (simp add: sum_list_addf)

lemma double_sum_antisym:
  fixes f :: "'a \<Rightarrow> 'a \<Rightarrow> real"
  assumes "\<And>a b. f b a = - f a b"
  shows "(\<Sum>a\<leftarrow>xs. \<Sum>b\<leftarrow>xs. f a b) = 0"
proof (induction xs)
  case Nil
  show ?case by simp
next
  case (Cons x xs)
  have "f x x = 0" using assms[of x x] by linarith
  moreover have "(\<lambda>b. f x b + f b x) = (\<lambda>b. 0)"
  proof (rule ext)
    fix b show "f x b + f b x = 0" using assms[of x b] by linarith
  qed
  then have "(\<Sum>b\<leftarrow>xs. f x b + f b x) = 0" by simp
  ultimately show ?case unfolding double_sum_cons using Cons.IH by linarith
qed

lemma double_sum_lower:
  fixes f :: "'a \<Rightarrow> 'a \<Rightarrow> real"
  assumes "\<And>a b. 0 \<le> f a b + f b a" and "\<And>a. w \<le> f a a"
  shows "w * real (length xs) \<le> (\<Sum>a\<leftarrow>xs. \<Sum>b\<leftarrow>xs. f a b)"
proof (induction xs)
  case Nil
  show ?case by simp
next
  case (Cons x xs)
  have "0 \<le> (\<Sum>b\<leftarrow>xs. f x b + f b x)"
    by (rule sum_list_nonneg) (auto simp: assms(1))
  moreover have "w \<le> f x x" by (rule assms(2))
  ultimately show ?case unfolding double_sum_cons using Cons.IH
    by (simp add: algebra_simps del: sum_list.Cons)
qed

lemma accumulate_mono:
  "maxPenetration acc \<le> maxPenetration (accumulateContact c a b acc)"
  "contactCount acc \<le> contactCount (accumulateContact c a b acc)"
  by (simp_all add: accumulateContact_def Let_def split: option.splits)

lemma accumulate_hit:
  assumes "getCubeContact c a b = Some k"
  shows "cubePenetration k \<le> maxPenetration (accumulateContact c a b acc)"
    and "0 < contactCount (accumulateContact c a b acc)"
  using assms by (simp_all add: accumulateContact_def Let_def)

lemma accumulate_upper:
  assumes "maxPenetration acc \<le> cubeSize"
  shows "maxPenetration (accumulateContact c a b acc) \<le> cubeSize"
  using assms cubePenetration_le[of c a b]
  by (simp add: accumulateContact_def Let_def split: option.splits)

lemma fold_accumulate_mono:
  "maxPenetration acc \<le> maxPenetration (fold (accumulateContact c a) bs acc)"
  "contactCount acc \<le> contactCount (fold (accumulateContact c a) bs acc)"
proof (induction bs arbitrary: acc)
  case Nil
  { case 1 show ?case by simp }
  { case 2 show ?case by simp }
next
  case (Cons b bs)
  { case 1 show ?case
      using accumulate_mono(1)[of acc c a b] Cons.IH(1)[of "accumulateContact c a b acc"] by simp }
  { case 2 show ?case
      using accumulate_mono(2)[of acc c a b] Cons.IH(2)[of "accumulateContact c a b acc"] by simp }
qed

lemma fold_accumulate_hit:
  assumes "b \<in> set bs" and "getCubeContact c a b = Some k"
  shows "cubePenetration k \<le> maxPenetration (fold (accumulateContact c a) bs acc)
       \<and> 0 < contactCount (fold (accumulateContact c a) bs acc)"
  using assms(1)
proof (induction bs arbitrary: acc)
  case Nil
  then show ?case by simp
next
  case (Cons x xs)
  show ?case
  proof (cases "x = b")
    case True
    have "cubePenetration k \<le> maxPenetration (accumulateContact c a b acc)"
      and "0 < contactCount (accumulateContact c a b acc)"
      using accumulate_hit[OF assms(2)] by simp_all
    then show ?thesis
      using True fold_accumulate_mono[of "accumulateContact c a b acc" c a xs] by simp
  next
    case False
    then have "b \<in> set xs" using Cons.prems by simp
    then show ?thesis using Cons.IH by simp
  qed
qed

lemma fold_accumulate_upper:
  assumes "maxPenetration acc \<le> cubeSize"
  shows "maxPenetration (fold (accumulateContact c a) bs acc) \<le> cubeSize"
  using assms by (induction bs arbitrary: acc) (simp_all add: accumulate_upper)

lemma contactLoop_mono:
  "maxPenetration acc \<le> maxPenetration (contactLoop c as bs acc)"
  "contactCount acc \<le> contactCount (contactLoop c as bs acc)"
  unfolding contactLoop_def
proof (induction as arbitrary: acc)
  case Nil
  { case 1 show ?case by simp }
  { case 2 show ?case by simp }
next
  case (Cons a as)
  { case 1 show ?case
      using fold_accumulate_mono(1)[of acc c a bs]
        Cons.IH(1)[of "fold (accumulateContact c a) bs acc"] by simp }
  { case 2 show ?case
      using fold_accumulate_mono(2)[of acc c a bs]
        Cons.IH(2)[of "fold (accumulateContact c a) bs acc"] by simp }
qed

lemma contactLoop_hit:
  assumes "a \<in> set as" and "b \<in> set bs" and "getCubeContact c a b = Some k"
  shows "cubePenetration k \<le> maxPenetration (contactLoop c as bs acc)
       \<and> 0 < contactCount (contactLoop c as bs acc)"
  using assms(1)
proof (induction as arbitrary: acc)
  case Nil
  then show ?case by simp
next
  case (Cons x xs)
  show ?case
  proof (cases "x = a")
    case True
    then show ?thesis
      using fold_accumulate_hit[OF assms(2,3), of acc]
        contactLoop_mono[of "fold (accumulateContact c a) bs acc" c xs bs]
      by (simp add: contactLoop_def)
  next
    case False
    then have "a \<in> set xs" using Cons.prems by simp
    then show ?thesis using Cons.IH[of "fold (accumulateContact c x) bs acc"]
      by (simp add: contactLoop_def)
  qed
qed

lemma contactLoop_upper:
  assumes "maxPenetration acc \<le> cubeSize"
  shows "maxPenetration (contactLoop c as bs acc) \<le> cubeSize"
  using assms unfolding contactLoop_def
  by (induction as arbitrary: acc) (simp_all add: fold_accumulate_upper)

text \<open>
  Claim C2. Two pieces with the same, non-empty list of cube centres (fully overlapping
  clusters) are in contact: \<^verbatim>\<open>_getPieceContact\<close> returns a contact whose penetration
  is \<open>cubeSize\<close> and whose normal has length one. The touch tolerance is taken to be
  non-negative; the cubes need not even lie on a lattice, since the contributions of two
  different cubes cancel in pairs.
\<close>

theorem getPieceContact_identical:
  assumes same: "cubes pieceA = cubes pieceB"
    and nonempty: "cubes pieceA \<noteq> []"
    and eps: "0 \<le> touchEpsilon c"
  shows "\<exists>k. getPieceContact c pieceA pieceB = Some k
           \<and> penetration k = cubeSize
           \<and> hypot3 (vx (normal k)) (vy (normal k)) (vz (normal k)) = 1"
proof -
  define cs where "cs = cubes pieceA"
  define acc where "acc = contactLoop c cs cs contactAcc0"
  have "cs \<noteq> []" using nonempty by (simp add: cs_def)
  then obtain a where a: "a \<in> set cs" by (meson last_in_set)
  have self: "getCubeContact c a a = Some \<lparr> cubeNormal = Vec3 1 0 0, cubePenetration = cubeSize \<rparr>"
    by (rule getCubeContact_self[OF eps])
  have hit: "cubeSize \<le> maxPenetration acc" "0 < contactCount acc"
    using contactLoop_hit[OF a a self, of contactAcc0] by (simp_all add: acc_def)
  have "maxPenetration acc \<le> cubeSize"
    unfolding acc_def by (rule contactLoop_upper) (simp add: contactAcc0_def cubeSize_def)
  with hit have pen: "maxPenetration acc = cubeSize" by simp
  have ny: "normalY acc = 0"
    unfolding acc_def contactLoop_fields
    by (simp add: contactAcc0_def double_sum_antisym[of "wY c", OF wY_antisym])
  have nz: "normalZ acc = 0"
    unfolding acc_def contactLoop_fields
    by (simp add: contactAcc0_def double_sum_antisym[of "wZ c", OF wZ_antisym])
  have "5 / 1000 * real (length cs) \<le> (\<Sum>a\<leftarrow>cs. \<Sum>b\<leftarrow>cs. wX c a b)"
    by (rule double_sum_lower[of "wX c", OF wX_pair_nonneg wX_self[OF eps]])
  moreover have "1 \<le> real (length cs)" using \<open>cs \<noteq> []\<close> by (cases cs) simp_all
  ultimately have nx: "5 / 1000 \<le> normalX acc"
    unfolding acc_def contactLoop_fields by (simp add: contactAcc0_def)
  have len: "hypot3 (normalX acc) 0 0 = normalX acc"
    using nx by (simp add: hypot3_def)
  have "getPieceContact c pieceA pieceB
          = Some \<lparr> normal = Vec3 1 0 0, penetration = cubeSize, contacts = contactCount acc \<rparr>"
    using hit(2) nx
    by (simp add: getPieceContact_def same[symmetric] cs_def[symmetric] acc_def[symmetric]
          Let_def len ny nz pen)
  then show ?thesis by (simp add: hypot3_def)
qed

theorem getPieceContact_identical_witness:
  "\<exists>k. getPieceContact defaultConfig
          \<lparr> pieceIndex = 0, center = Vec3 (1 / 2) 0 0, cubes = [Vec3 0 0 0, Vec3 1 0 0] \<rparr>
          \<lparr> pieceIndex = 1, center = Vec3 (1 / 2) 0 0, cubes = [Vec3 0 0 0, Vec3 1 0 0] \<rparr> = Some k
        \<and> penetration k = 9 / 10
        \<and> hypot3 (vx (normal k)) (vy (normal k)) (vz (normal k)) = 1"
  using getPieceContact_identical[of
      "\<lparr> pieceIndex = 0, center = Vec3 (1 / 2) 0 0, cubes = [Vec3 0 0 0, Vec3 1 0 0] \<rparr>"
      "\<lparr> pieceIndex = 1, center = Vec3 (1 / 2) 0 0, cubes = [Vec3 0 0 0, Vec3 1 0 0] \<rparr>"
      defaultConfig]
  by (simp add: defaultConfig_def cubeSize_def)

section \<open>Field lemmas\<close>

lemma syncExplodeSlider_fields [simp]:
  "explodeAmount (syncExplodeSlider st) = explodeAmount st"
  "reassembleState (syncExplodeSlider st) = reassembleState st"
  "pieceOffsets (syncExplodeSlider st) = pieceOffsets st"
  "pieceVelocities (syncExplodeSlider st) = pieceVelocities st"
  by (simp_all add: syncExplodeSlider_def Let_def split: option.splits)

lemma setReassembleButtonVisible_fields [simp]:
  "reassembleButtonVisible (setReassembleButtonVisible v st) = v"
  "explodeAmount (setReassembleButtonVisible v st) = explodeAmount st"
  "reassembleState (setReassembleButtonVisible v st) = reassembleState st"
  "pieceOffsets (setReassembleButtonVisible v st) = pieceOffsets st"
  "pieceVelocities (setReassembleButtonVisible v st) = pieceVelocities st"
  "pressState (setReassembleButtonVisible v st) = pressState st"
  "pendingTimers (setReassembleButtonVisible v st) = pendingTimers st"
  "settings (setReassembleButtonVisible v st) = settings st"
  "timeSec (setReassembleButtonVisible v st) = timeSec st"
  "draggingPiece (setReassembleButtonVisible v st) = draggingPiece st"
  "cameraInputLocked (setReassembleButtonVisible v st) = cameraInputLocked st"
  by (simp_all add: setReassembleButtonVisible_def Let_def split: option.splits)

lemma cancelHold_fields [simp]:
  "pressState (cancelHold u st) = None"
  "nextRef (cancelHold u st) = nextRef st"
  "reassembleState (cancelHold u st) = reassembleState st"
  "settings (cancelHold u st) = settings st"
  "timeSec (cancelHold u st) = timeSec st"
  "pieceOffsets (cancelHold u st) = pieceOffsets st"
  "explodeAmount (cancelHold u st) = explodeAmount st"
  by (simp_all add: cancelHold_def Let_def split: option.splits)

section \<open>The bounding-box metric\<close>

lemma getPieceOffset_zero:
  assumes "\<forall>v \<in> set (pieceOffsets st). v = Vec3 0 0 0"
  shows "getPieceOffset st = (\<lambda>i. ZERO_OFFSET)"
proof (rule ext)
  fix i
  show "getPieceOffset st i = ZERO_OFFSET"
    using assms by (auto simp: getPieceOffset_def ZERO_OFFSET_def)
qed

text \<open>
  Claim C8. The bounding-box excess is never negative; it is 0 when every piece's user
  offset is \<open>[0, 0, 0]\<close>, whatever the explode amount; and the bounding box of no pieces
  has volume 0.
\<close>

theorem bboxExcess_nonneg_zero:
  "0 \<le> excess (computeBoundingBoxMetrics sol st)
   \<and> ((\<forall>v \<in> set (pieceOffsets st). v = Vec3 0 0 0)
        \<longrightarrow> excess (computeBoundingBoxMetrics sol st) = 0)
   \<and> computePiecesBoundingBox [] = 0"
proof (intro conjI impI)
  show "0 \<le> excess (computeBoundingBoxMetrics sol st)"
    by (simp add: computeBoundingBoxMetrics_def Let_def)
next
  assume z: "\<forall>v \<in> set (pieceOffsets st). v = Vec3 0 0 0"
  define V where "V = computePiecesBoundingBox (getRenderPieces (explodeAmount st) (\<lambda>i. ZERO_OFFSET) sol)"
  have pos: "0 < max (1 / 1000000) V" by simp
  have "V - max (1 / 1000000) V \<le> 0" by simp
  then have "(V - max (1 / 1000000) V) / max (1 / 1000000) V \<le> 0"
    using pos by (simp add: divide_nonpos_pos)
  then show "excess (computeBoundingBoxMetrics sol st) = 0"
    by (simp add: computeBoundingBoxMetrics_def Let_def getPieceOffset_zero[OF z] V_def[symmetric] max_def)
next
  show "computePiecesBoundingBox [] = 0"
    by (simp add: computePiecesBoundingBox_def)
qed

theorem bboxExcess_nonneg_zero_witness:
  "excess (computeBoundingBoxMetrics [(0, [(0, 0, 0), (1, 0, 0)]), (1, [(2, 2, 2)])]
             ((initialState defaultConfig 0)\<lparr>explodeAmount := 1\<rparr>)) = 0"
  using bboxExcess_nonneg_zero[of "[(0, [(0, 0, 0), (1, 0, 0)]), (1, [(2, 2, 2)])]"
          "(initialState defaultConfig 0)\<lparr>explodeAmount := 1\<rparr>"]
  by (simp add: initialState_def PIECES_length_def)

section \<open>Reassembly\<close>

text \<open>
  Claim C4. \<^verbatim>\<open>startReassembleAnimation()\<close> called while a reassembly animation is
  active changes nothing at all.
\<close>

theorem startReassemble_idempotent:
  assumes "reassembleState st \<noteq> None"
  shows "startReassembleAnimation st = st"
  using assms by (auto simp: startReassembleAnimation_def)

lemma startReassemble_starts:
  assumes "reassembleState st = None"
  shows "reassembleState (startReassembleAnimation st) \<noteq> None"
  using assms by (simp add: startReassembleAnimation_def Let_def)

theorem startReassemble_idempotent_witness:
  "startReassembleAnimation (startReassembleAnimation (initialState defaultConfig 0))
     = startReassembleAnimation (initialState defaultConfig 0)"
proof -
  have "reassembleState (initialState defaultConfig 0) = None"
    by (simp add: initialState_def)
  then have "reassembleState (startReassembleAnimation (initialState defaultConfig 0)) \<noteq> None"
    by (rule startReassemble_starts)
  then show ?thesis by (rule startReassemble_idempotent)
qed

lemma reassemblePiece_done:
  assumes "0 < duration rs" and "delays rs ! i + duration rs \<le> elapsed"
  shows "reassemblePiece rs elapsed i (st, True)
       = (st\<lparr>pieceOffsets := (pieceOffsets st)[i := Vec3 0 0 0],
              pieceVelocities := (pieceVelocities st)[i := Vec3 0 0 0]\<rparr>, True)"
proof -
  have "1 \<le> (elapsed - delays rs ! i) / duration rs"
    using assms by (simp add: le_divide_eq)
  moreover from this have "\<not> (elapsed - delays rs ! i) / duration rs \<le> 0" by linarith
  ultimately show ?thesis
    by (simp add: reassemblePiece_def Let_def)
qed

lemma reassembleLoop_done:
  assumes "0 < duration rs" and "\<forall>i \<in> set idxs. delays rs ! i + duration rs \<le> elapsed"
  shows "fold (reassemblePiece rs elapsed) idxs (st, True)
       = (st\<lparr>pieceOffsets := fold (\<lambda>i xs. xs[i := Vec3 0 0 0]) idxs (pieceOffsets st),
              pieceVelocities := fold (\<lambda>i xs. xs[i := Vec3 0 0 0]) idxs (pieceVelocities st)\<rparr>, True)"
  using assms(2)
proof (induction idxs arbitrary: st)
  case Nil
  show ?case by simp
next
  case (Cons i idxs)
  have "delays rs ! i + duration rs \<le> elapsed" using Cons.prems by simp
  note step = reassemblePiece_done[OF assms(1) this]
  have "\<forall>i \<in> set idxs. delays rs ! i + duration rs \<le> elapsed" using Cons.prems by simp
  note ih = Cons.IH[OF this]
  show ?case by (simp add: step ih)
qed

lemma fold_update_all:
  "length xs = n \<Longrightarrow> fold (\<lambda>i ys. ys[i := z]) [0..<n] xs = replicate n z"
proof -
  have gen: "\<And>xs. k \<le> length xs \<Longrightarrow>
      fold (\<lambda>i ys. ys[i := z]) [0..<k] xs = replicate k z @ drop k xs" for k
  proof (induction k)
    case 0
    show ?case by simp
  next
    case (Suc k)
    then have "k < length xs" by simp
    have "fold (\<lambda>i ys. ys[i := z]) [0..<Suc k] xs
            = (replicate k z @ drop k xs)[k := z]"
      using Suc by simp
    also have "\<dots> = replicate k z @ (drop k xs)[0 := z]"
      by (simp add: list_update_append)
    also have "(drop k xs)[0 := z] = z # drop (Suc k) xs"
      using \<open>k < length xs\<close> by (metis Cons_nth_drop_Suc list_update_code(2))
    finally show ?case by (simp add: replicate_append_same)
  qed
  assume "length xs = n"
  then show ?thesis using gen[of n xs] by simp
qed

lemma stepReassemble_done:
  assumes active: "reassembleState st = Some rs"
    and dur: "0 < duration rs"
    and late: "\<forall>i < PIECES_length. delays rs ! i + duration rs \<le> timeSec st - startTime rs"
    and len: "length (pieceOffsets st) = PIECES_length"
  shows "pieceOffsets (stepReassembleAnimation st) = replicate PIECES_length (Vec3 0 0 0)
       \<and> explodeAmount (stepReassembleAnimation st) = 0
       \<and> reassembleState (stepReassembleAnimation st) = None"
proof -
  define elapsed where "elapsed = timeSec st - startTime rs"
  define st1 where "st1 = syncExplodeSlider
      (st\<lparr>explodeAmount := startExplodeAmount rs
              * (1 - easeInOutCubic (min 1 (max 0 (elapsed / totalDuration rs))))\<rparr>)"
  have all: "\<forall>i \<in> set [0..<PIECES_length]. delays rs ! i + duration rs \<le> elapsed"
    using late by (simp add: elapsed_def)
  have loop: "fold (reassemblePiece rs elapsed) [0..<PIECES_length] (st1, True)
       = (st1\<lparr>pieceOffsets := replicate PIECES_length (Vec3 0 0 0),
               pieceVelocities := fold (\<lambda>i xs. xs[i := Vec3 0 0 0]) [0..<PIECES_length] (pieceVelocities st1)\<rparr>, True)"
    unfolding reassembleLoop_done[OF dur all]
    using len by (simp add: st1_def fold_update_all)
  show ?thesis
    using active
    by (simp add: stepReassembleAnimation_def Let_def elapsed_def[symmetric] st1_def[symmetric] loop)
qed

text \<open>
  Claim C3. When the time elapsed since the start of an active reassembly animation has
  reached the end of every piece's window (its delay plus the duration, the duration
  being positive), one call of \<^verbatim>\<open>_stepReassembleAnimation\<close> leaves every piece offset
  at \<open>[0, 0, 0]\<close>, the explode amount at 0 and no reassembly state.
\<close>

theorem stepReassemble_finishes:
  assumes "reassembleState st = Some rs"
    and "0 < duration rs"
    and "\<forall>i < PIECES_length. delays rs ! i + duration rs \<le> timeSec st - startTime rs"
    and "length (pieceOffsets st) = PIECES_length"
  shows "pieceOffsets (stepReassembleAnimation st) = replicate PIECES_length (Vec3 0 0 0)
       \<and> explodeAmount (stepReassembleAnimation st) = 0
       \<and> reassembleState (stepReassembleAnimation st) = None"
  using assms by (rule stepReassemble_done)

theorem stepReassemble_finishes_witness:
  "pieceOffsets (stepReassembleAnimation
     ((initialState defaultConfig 2)\<lparr>
        pieceOffsets := replicate 7 (Vec3 1 2 0),
        explodeAmount := 1,
        reassembleState := Some \<lparr> startTime = 1, startOffsets = replicate 7 (Vec3 1 2 0),
          delays = [0, 55 / 1000, 110 / 1000, 165 / 1000, 220 / 1000, 275 / 1000, 330 / 1000],
          duration = 1 / 2, totalDuration = 83 / 100, startExplodeAmount = 1 \<rparr>\<rparr>))
     = replicate 7 (Vec3 0 0 0)
   \<and> explodeAmount (stepReassembleAnimation
     ((initialState defaultConfig 2)\<lparr>
        pieceOffsets := replicate 7 (Vec3 1 2 0),
        explodeAmount := 1,
        reassembleState := Some \<lparr> startTime = 1, startOffsets = replicate 7 (Vec3 1 2 0),
          delays = [0, 55 / 1000, 110 / 1000, 165 / 1000, 220 / 1000, 275 / 1000, 330 / 1000],
          duration = 1 / 2, totalDuration = 83 / 100, startExplodeAmount = 1 \<rparr>\<rparr>)) = 0"
proof -
  let ?rs = "\<lparr> startTime = 1, startOffsets = replicate 7 (Vec3 1 2 0),
          delays = [0, 55 / 1000, 110 / 1000, 165 / 1000, 220 / 1000, 275 / 1000, 330 / 1000],
          duration = 1 / 2, totalDuration = 83 / 100, startExplodeAmount = 1 \<rparr> :: reassemble"
  let ?st = "(initialState defaultConfig 2)\<lparr>
        pieceOffsets := replicate 7 (Vec3 1 2 0),
        explodeAmount := 1,
        reassembleState := Some ?rs\<rparr>"
  have a: "reassembleState ?st = Some ?rs" by simp
  have d: "0 < duration ?rs" by simp
  have l: "\<forall>i < PIECES_length. delays ?rs ! i + duration ?rs \<le> timeSec ?st - startTime ?rs"
    by (simp add: PIECES_length_def initialState_def less_Suc_eq numeral_nat nth_Cons')
  have n: "length (pieceOffsets ?st) = PIECES_length" by (simp add: PIECES_length_def)
  show ?thesis
    using stepReassemble_finishes[OF a d l n] by (simp add: PIECES_length_def)
qed

lemma assignDelays_length: "length (assignDelays stagger ranked) = PIECES_length"
proof -
  have "length (fold (\<lambda>(rank, e) ds. ds[fst e := real rank * stagger]) xs ds0) = length ds0"
    for xs :: "(nat \<times> nat \<times> real) list" and ds0
    by (induction xs arbitrary: ds0) (simp_all add: case_prod_beta)
  then show ?thesis by (simp add: assignDelays_def)
qed

lemma fold_max_ge:
  fixes a :: real
  shows "a \<le> fold max xs a" and "\<forall>y \<in> set xs. y \<le> fold max xs a"
proof (induction xs arbitrary: a)
  case Nil
  { case 1 show ?case by simp }
  { case 2 show ?case by simp }
next
  case (Cons x xs)
  { case 1 show ?case using Cons.IH(1)[of "max x a"] by simp }
  { case 2 show ?case using Cons.IH(1)[of "max x a"] Cons.IH(2)[of "max x a"] by simp }
qed

lemma maxDelay_ge:
  assumes "i < length ds"
  shows "ds ! i \<le> maxDelay ds"
proof (cases ds)
  case Nil
  then show ?thesis using assms by simp
next
  case (Cons x xs)
  show ?thesis
  proof (cases i)
    case 0
    then show ?thesis using Cons fold_max_ge(1)[of x xs] by (simp add: maxDelay_def)
  next
    case (Suc j)
    then have "xs ! j \<in> set xs" using assms Cons by simp
    then show ?thesis using Cons Suc fold_max_ge(2)[of xs x] by (simp add: maxDelay_def)
  qed
qed

lemma startReassemble_state:
  assumes "reassembleState st = None"
    and "reassembleState (startReassembleAnimation st) = Some rs"
  shows "startTime rs = timeSec st"
    and "duration rs = reassemblePieceDuration (settings st)"
    and "length (delays rs) = PIECES_length"
    and "totalDuration rs = max (duration rs) (duration rs + maxDelay (delays rs))"
    and "pieceOffsets (startReassembleAnimation st) = pieceOffsets st"
  using assms
  by (auto simp: startReassembleAnimation_def Let_def assignDelays_length)

lemma isAnyPieceMoving_fields [simp]:
  "pieceOffsets (snd (isAnyPieceMoving st)) = pieceOffsets st"
  "explodeAmount (snd (isAnyPieceMoving st)) = explodeAmount st"
  "reassembleState (snd (isAnyPieceMoving st)) = reassembleState st"
  by (simp_all add: isAnyPieceMoving_def Let_def split: option.splits)

lemma updateStruggle_core: "animationCore (updateStruggleDetection sol st) = animationCore st"
proof (cases "cameraPageScrolling st")
  case True
  then show ?thesis by (simp add: updateStruggleDetection_def)
next
  case False
  define c where "c = settings st"
  define m where "m = computeBoundingBoxMetrics sol st"
  define st1 where "st1 = st\<lparr>bboxExcess := excess m\<rparr>"
  define st2 where "st2 = (if excess m \<le> bboxSolvedThreshold c
                           then st1\<lparr>recoveryAttemptCount := 0\<rparr> else st1)"
  define mv where "mv = isAnyPieceMoving st2"
  define st4 where "st4 = (if fst mv then (snd mv)\<lparr>settledStillTime := 0\<rparr>
       else (snd mv)\<lparr>settledStillTime :=
              min (settleDelaySec c + 1) (settledStillTime (snd mv) + max 0 (deltaTime (snd mv)))\<rparr>)"
  have "animationCore st2 = animationCore st"
    by (simp add: st2_def st1_def animationCore_def)
  then have "animationCore (snd mv) = animationCore st"
    unfolding mv_def by (simp add: animationCore_def)
  then have c4: "animationCore st4 = animationCore st"
    by (simp add: st4_def animationCore_def)
  have "animationCore (updateStruggleDetection sol st) = animationCore st4"
    unfolding updateStruggleDetection_def Let_def
    unfolding c_def[symmetric] m_def[symmetric]
    unfolding st1_def[symmetric]
    unfolding st2_def[symmetric]
    unfolding mv_def[symmetric]
    unfolding st4_def[symmetric]
    using False by (simp add: animationCore_def)
  then show ?thesis using c4 by simp
qed

lemma setupFrame_fields [simp]:
  "pieceOffsets (setupFrame T st) = pieceOffsets st"
  "reassembleState (setupFrame T st) = reassembleState st"
  "timeSec (setupFrame T st) = T"
  by (simp_all add: setupFrame_def)

text \<open>
  From the start to the end: when \<^verbatim>\<open>startReassembleAnimation()\<close> starts an animation
  on a renderer whose piece duration is positive, the first frame rendered once the total
  duration has passed leaves every offset at \<open>[0, 0, 0]\<close>, the explode amount at 0 and
  no reassembly state.
\<close>

lemma reassembly_completes:
  assumes idle: "reassembleState st = None"
    and dur: "0 < reassemblePieceDuration (settings st)"
    and len: "length (pieceOffsets st) = PIECES_length"
    and started: "reassembleState (startReassembleAnimation st) = Some rs"
    and late: "timeSec st + totalDuration rs \<le> T"
  shows "animationCore (render T sol (startReassembleAnimation st))
       = (replicate PIECES_length (Vec3 0 0 0), 0, None)"
proof -
  note rs = startReassemble_state[OF idle started]
  define st1 where "st1 = setupFrame T (startReassembleAnimation st)"
  have a: "reassembleState st1 = Some rs" by (simp add: st1_def started)
  have d: "0 < duration rs" using dur rs(2) by simp
  have l: "\<forall>i < PIECES_length. delays rs ! i + duration rs \<le> timeSec st1 - startTime rs"
  proof (intro allI impI)
    fix i assume "i < PIECES_length"
    then have "delays rs ! i \<le> maxDelay (delays rs)" using rs(3) by (simp add: maxDelay_ge)
    then have "delays rs ! i + duration rs \<le> totalDuration rs" using rs(4) by simp
    then show "delays rs ! i + duration rs \<le> timeSec st1 - startTime rs"
      using late rs(1) by (simp add: st1_def)
  qed
  have n: "length (pieceOffsets st1) = PIECES_length" using len rs(5) by (simp add: st1_def)
  have "animationCore (stepReassembleAnimation st1) = (replicate PIECES_length (Vec3 0 0 0), 0, None)"
    using stepReassemble_done[OF a d l n] by (simp add: animationCore_def)
  then show ?thesis
    using a by (simp add: render_def st1_def[symmetric] beforeRenderSolution_def updateStruggle_core)
qed

section \<open>Sub-steps of a frame\<close>

lemma substeps_cases:
  "substeps dt = (if dt \<le> 12 / 1000 then 1 else if dt \<le> 24 / 1000 then 2
                  else if dt \<le> 36 / 1000 then 3 else 4)"
proof -
  define n where "n = \<lceil>dt / (12 / 1000)\<rceil>"
  have c: "n \<le> k \<longleftrightarrow> dt \<le> 12 / 1000 * of_int k" for k :: int
    unfolding n_def by (simp add: ceiling_le_iff field_simps)
  have n1: "n \<le> 1 \<longleftrightarrow> dt \<le> 12 / 1000"
    and n2: "n \<le> 2 \<longleftrightarrow> dt \<le> 24 / 1000"
    and n3: "n \<le> 3 \<longleftrightarrow> dt \<le> 36 / 1000"
    using c[of 1] c[of 2] c[of 3] by simp_all
  have s: "substeps dt = nat (max 1 (min 4 n))"
    by (simp add: substeps_def n_def)
  consider "n \<le> 1" | "n = 2" | "n = 3" | "4 \<le> n" by linarith
  then show ?thesis
  proof cases
    case 1
    then show ?thesis using n1 by (simp add: s)
  next
    case 2
    then have "\<not> n \<le> 1" "n \<le> 2" by simp_all
    then show ?thesis using n1 n2 2 by (simp add: s)
  next
    case 3
    then have "\<not> n \<le> 1" "\<not> n \<le> 2" "n \<le> 3" by simp_all
    then show ?thesis using n1 n2 n3 3 by (simp add: s)
  next
    case 4
    then have "\<not> n \<le> 1" "\<not> n \<le> 2" "\<not> n \<le> 3" by simp_all
    then show ?thesis using n1 n2 n3 4 by (simp add: s)
  qed
qed

lemma setupFrame_deltaTime:
  "0 \<le> deltaTime (setupFrame nowSec st) \<and> deltaTime (setupFrame nowSec st) \<le> 1 / 10"
  by (simp add: setupFrame_def max_def min_def)

lemma beforeRenderSolution_substeps:
  assumes "reassembleState st = None" and "0 < deltaTime st"
  shows "beforeRenderSolution sol st
       = updateStruggleDetection sol
           ((physicsSubstep sol (stepDtOf (deltaTime st)) ^^ substeps (deltaTime st)) st)"
  using assms by (simp add: beforeRenderSolution_def Let_def)

text \<open>
  Claim C6, as amended. For a positive frame delta the integration runs in between one
  and four equal sub-steps that add up to the delta. A sub-step lasts at most 12 ms when
  the delta is at most 48 ms, and at most 25 ms for any delta \<^verbatim>\<open>_setupFrame\<close> lets
  through (at most 0.1 s).
\<close>

theorem substeps_bounds:
  assumes "0 < dt"
  shows "1 \<le> substeps dt \<and> substeps dt \<le> 4
       \<and> real (substeps dt) * stepDtOf dt = dt
       \<and> (dt \<le> 48 / 1000 \<longrightarrow> stepDtOf dt \<le> 12 / 1000)
       \<and> (dt \<le> 1 / 10 \<longrightarrow> stepDtOf dt \<le> 25 / 1000)"
  using assms unfolding stepDtOf_def substeps_cases by auto

theorem substeps_bounds_witness:
  "substeps (1 / 60) = 2 \<and> stepDtOf (1 / 60) = 1 / 120 \<and> stepDtOf (1 / 60) \<le> 12 / 1000"
  using substeps_bounds[of "1 / 60"] by (simp add: stepDtOf_def substeps_cases)

text \<open>
  The claim as first stated fails at the largest delta: 0.1 s is cut into four sub-steps
  of 25 ms each.
\<close>

theorem substep_longer_than_12ms:
  "deltaTime (setupFrame (1 / 10) (initialState defaultConfig 0)) = 1 / 10
   \<and> substeps (1 / 10) = 4
   \<and> stepDtOf (1 / 10) = 25 / 1000
   \<and> \<not> stepDtOf (1 / 10) \<le> 12 / 1000"
  by (simp add: setupFrame_def initialState_def stepDtOf_def substeps_cases)

section \<open>The hold timer\<close>

text \<open>
  Claim C9. When the hold timer's function runs and the current press-state object is
  not the one it captured (there is none, or it is another one), the state is left as it
  is: no piece starts to be dragged, no velocity is reset, the camera is not locked.
\<close>

theorem holdTimer_stale_noop:
  assumes "case pressState st of None \<Rightarrow> True | Some p \<Rightarrow> pressRef p \<noteq> ref"
  shows "holdTimerCallback ref nowSec st = st"
  using assms by (simp add: holdTimerCallback_def split: option.splits)

lemma holdTimer_after_cancel:
  "holdTimerCallback ref nowSec (cancelHold u st) = cancelHold u st"
  by (simp add: holdTimerCallback_def)

lemma beginHold_pressRef:
  assumes "pressState (beginHold pick kind ident x y st) = Some p"
    and "reassembleState st = None"
  shows "pressRef p = nextRef st"
  using assms by (auto simp: beginHold_def Let_def split: if_splits)

lemma beginHold_ref_fresh:
  assumes "pressState (beginHold pick kind ident x y st) = Some p"
    and "reassembleState st = None"
  shows "pressRef p < nextRef (beginHold pick kind ident x y st)"
  using assms by (auto simp: beginHold_def Let_def split: if_splits)

lemma holdTimer_after_replace:
  assumes "ref < nextRef st" and "reassembleState st = None"
  shows "holdTimerCallback ref nowSec (beginHold pick kind ident x y st)
       = beginHold pick kind ident x y st"
proof (cases "pressState (beginHold pick kind ident x y st)")
  case None
  then show ?thesis by (simp add: holdTimerCallback_def)
next
  case (Some p)
  then have "pressRef p = nextRef st" using assms(2) by (rule beginHold_pressRef)
  then have "pressRef p \<noteq> ref" using assms(1) by simp
  then show ?thesis using Some by (simp add: holdTimerCallback_def)
qed

theorem holdTimer_stale_noop_witness:
  "holdTimerCallback 0 1
     (beginHold (\<lambda>s x y. 5) Mouse 0 200 200
        (beginHold (\<lambda>s x y. 3) Mouse 0 10 10 (initialState defaultConfig 0)))
   = beginHold (\<lambda>s x y. 5) Mouse 0 200 200
        (beginHold (\<lambda>s x y. 3) Mouse 0 10 10 (initialState defaultConfig 0))"
  by (rule holdTimer_stale_noop)
     (simp add: beginHold_def cancelHold_def initialState_def Let_def)

lemma beginHold_during_reassembly:
  assumes "reassembleState st \<noteq> None"
  shows "beginHold pick kind ident x y st = st"
  using assms by (auto simp: beginHold_def)

lemma startReassemble_keeps_pending_press:
  assumes "reassembleState st = None" and "draggingPiece st < 0"
  shows "pressState (startReassembleAnimation st) = pressState st"
    and "pendingTimers (startReassembleAnimation st) = pendingTimers st"
    and "settings (startReassembleAnimation st) = settings st"
    and "reassembleState (startReassembleAnimation st) \<noteq> None"
  using assms by (simp_all add: startReassembleAnimation_def Let_def)

text \<open>
  Claim C10. \<^verbatim>\<open>_beginHold\<close> does nothing during a reassembly animation
  (\<open>beginHold_during_reassembly\<close>), but a press begun just before the animation is not
  cancelled by \<^verbatim>\<open>startReassembleAnimation\<close> while its timer is still pending: when
  the timer fires during the animation, piece 3 becomes the dragged piece and the camera
  is locked.
\<close>

theorem pending_hold_promoted_during_reassembly:
  "reassembleState
     (fireHoldTimer 0 (3 / 10)
        (startReassembleAnimation
           (beginHold (\<lambda>s x y. 3) Mouse 0 10 10 (initialState defaultConfig 0)))) \<noteq> None
   \<and> draggingPiece
     (fireHoldTimer 0 (3 / 10)
        (startReassembleAnimation
           (beginHold (\<lambda>s x y. 3) Mouse 0 10 10 (initialState defaultConfig 0)))) = 3
   \<and> cameraInputLocked
     (fireHoldTimer 0 (3 / 10)
        (startReassembleAnimation
           (beginHold (\<lambda>s x y. 3) Mouse 0 10 10 (initialState defaultConfig 0))))"
proof -
  define st1 where "st1 = beginHold (\<lambda>s x y. 3) Mouse 0 10 10 (initialState defaultConfig 0)"
  define p where "p = \<lparr> pressRef = 0, pressKind = Mouse, pressId = 0, pressPieceIndex = 3,
      startX = 10, startY = 10, lastX = 10, lastY = 10, dragDistancePx = 0, active = False,
      timerId = 0 \<rparr>"
  have st1: "pressState st1 = Some p" "pendingTimers st1 = [0]" "reassembleState st1 = None"
    "draggingPiece st1 = - 1" "settings st1 = defaultConfig"
    by (simp_all add: st1_def p_def beginHold_def cancelHold_def initialState_def Let_def)
  define st2 where "st2 = startReassembleAnimation st1"
  have st2: "pressState st2 = Some p" "pendingTimers st2 = [0]" "reassembleState st2 \<noteq> None"
    "settings st2 = defaultConfig"
    using startReassemble_keeps_pending_press[of st1] st1 by (simp_all add: st2_def)
  have "reassembleState (fireHoldTimer 0 (3 / 10) st2) \<noteq> None
      \<and> draggingPiece (fireHoldTimer 0 (3 / 10) st2) = 3
      \<and> cameraInputLocked (fireHoldTimer 0 (3 / 10) st2)"
    using st2 by (simp add: fireHoldTimer_def holdTimerCallback_def p_def hypot2_def
        defaultConfig_def Let_def)
  then show ?thesis by (simp add: st2_def st1_def)
qed

section \<open>Minimum visible time of the affordance\<close>

lemma fold_keeps:
  assumes "\<And>x s. g (f x s) = g s"
  shows "g (fold f xs s) = g s"
  by (induction xs arbitrary: s) (simp_all add: assms)

lemma funpow_keeps:
  assumes "\<And>s. g (f s) = g s"
  shows "g ((f ^^ n) s) = g s"
  by (induction n) (simp_all add: assms)

lemma integratePiece_affordance: "affordance (integratePiece dt d i st) = affordance st"
  by (simp add: integratePiece_def affordance_def Let_def)

lemma integratePieceMotion_affordance: "affordance (integratePieceMotion dt st) = affordance st"
proof -
  have "affordance (fold (integratePiece dt d) xs st) = affordance st" for d xs
    by (rule fold_keeps) (rule integratePiece_affordance)
  then show ?thesis
    by (simp add: integratePieceMotion_def Let_def) (simp add: affordance_def)
qed

lemma trimTinyMotion_affordance: "affordance (trimTinyMotion st) = affordance st"
  unfolding trimTinyMotion_def
  by (rule fold_keeps) (simp add: trimPiece_def affordance_def Let_def)

lemma applyDragInteractions_affordance:
  "affordance (applyDragInteractions pbi dt st) = affordance st"
proof -
  have "affordance (fold (dragInteractPiece dragged pbi dt) xs st) = affordance st" for dragged xs
    by (rule fold_keeps)
       (simp add: dragInteractPiece_def affordance_def Let_def split: option.splits)
  then show ?thesis
    by (simp add: applyDragInteractions_def Let_def split: option.splits)
qed

lemma resolvePair_affordance: "affordance (resolvePair pieceI pbi i j st) = affordance st"
  by (simp add: resolvePair_def affordance_def Let_def split: option.splits)

lemma resolveDynamic_affordance:
  "affordance (resolveDynamicPieceCollisions pbi st) = affordance st"
  unfolding resolveDynamicPieceCollisions_def
proof (rule fold_keeps)
  fix i s
  have "affordance (fold (resolvePair pieceI pbi i) xs s) = affordance s" for pieceI xs
    by (rule fold_keeps) (rule resolvePair_affordance)
  then show "affordance (if int i = draggingPiece s then s
        else case pbi ! i of None \<Rightarrow> s
          | Some pieceI \<Rightarrow> fold (resolvePair pieceI pbi i) [i + 1..<length pbi] s) = affordance s"
    by (simp split: option.splits)
qed

lemma solvePieceCollisions_affordance:
  "affordance (solvePieceCollisions sol dt st) = affordance st"
  by (simp add: solvePieceCollisions_def Let_def resolveDynamic_affordance
      applyDragInteractions_affordance)

lemma physicsSubstep_affordance: "affordance (physicsSubstep sol dt st) = affordance st"
  by (simp add: physicsSubstep_def trimTinyMotion_affordance solvePieceCollisions_affordance
      integratePieceMotion_affordance)

lemma isAnyPieceMoving_affordance: "affordance (snd (isAnyPieceMoving st)) = affordance st"
  by (simp add: isAnyPieceMoving_def affordance_def Let_def split: option.splits)

lemma updateStruggle_keeps_visible:
  assumes vis: "reassembleButtonVisible st"
    and young: "timeSec st - reassembleVisibleSinceSec st < reassembleMinVisibleSec (settings st)"
  shows "reassembleButtonVisible (updateStruggleDetection sol st)
       \<and> reassembleVisibleSinceSec (updateStruggleDetection sol st) = reassembleVisibleSinceSec st"
proof (cases "cameraPageScrolling st")
  case True
  then show ?thesis using vis by (simp add: updateStruggleDetection_def)
next
  case False
  define c where "c = settings st"
  define m where "m = computeBoundingBoxMetrics sol st"
  define st1 where "st1 = st\<lparr>bboxExcess := excess m\<rparr>"
  define st2 where "st2 = (if excess m \<le> bboxSolvedThreshold c
                           then st1\<lparr>recoveryAttemptCount := 0\<rparr> else st1)"
  define mv where "mv = isAnyPieceMoving st2"
  define st4 where "st4 = (if fst mv then (snd mv)\<lparr>settledStillTime := 0\<rparr>
       else (snd mv)\<lparr>settledStillTime :=
              min (settleDelaySec c + 1) (settledStillTime (snd mv) + max 0 (deltaTime (snd mv)))\<rparr>)"
  have a2: "affordance st2 = affordance st"
    by (simp add: st2_def st1_def affordance_def)
  have a3: "affordance (snd mv) = affordance st"
    unfolding mv_def by (simp add: isAnyPieceMoving_affordance a2)
  have a4: "affordance st4 = affordance st"
    using a3 by (simp add: st4_def affordance_def)
  then have f4: "reassembleButtonVisible st4"
    "timeSec st4 - reassembleVisibleSinceSec st4 < reassembleMinVisibleSec c"
    "reassembleVisibleSinceSec st4 = reassembleVisibleSinceSec st"
    using vis young by (simp_all add: affordance_def c_def)
  have "updateStruggleDetection sol st = st4"
    unfolding updateStruggleDetection_def Let_def
    unfolding c_def[symmetric] m_def[symmetric]
    unfolding st1_def[symmetric]
    unfolding st2_def[symmetric]
    unfolding mv_def[symmetric]
    unfolding st4_def[symmetric]
    using False f4(1,2) by simp
  then show ?thesis using f4 by simp
qed

lemma render_keeps_visible:
  assumes vis: "reassembleButtonVisible st"
    and idle: "reassembleState st = None"
    and young: "nowSec - reassembleVisibleSinceSec st < reassembleMinVisibleSec (settings st)"
  shows "reassembleButtonVisible (render nowSec sol st)"
proof -
  define st' where "st' = setupFrame nowSec st"
  have s: "reassembleButtonVisible st'" "reassembleState st' = None" "timeSec st' = nowSec"
    "reassembleVisibleSinceSec st' = reassembleVisibleSinceSec st" "settings st' = settings st"
    using vis idle by (simp_all add: st'_def setupFrame_def)
  show ?thesis
  proof (cases "deltaTime st' \<le> 0")
    case True
    then show ?thesis
      using s by (simp add: render_def st'_def[symmetric] beforeRenderSolution_def)
  next
    case False
    define st'' where
      "st'' = (physicsSubstep sol (stepDtOf (deltaTime st')) ^^ substeps (deltaTime st')) st'"
    have "affordance st'' = affordance st'"
      unfolding st''_def by (rule funpow_keeps) (rule physicsSubstep_affordance)
    then have "reassembleButtonVisible st''"
      and "timeSec st'' - reassembleVisibleSinceSec st'' < reassembleMinVisibleSec (settings st'')"
      using s young by (simp_all add: affordance_def)
    then have "reassembleButtonVisible (updateStruggleDetection sol st'')"
      using updateStruggle_keeps_visible by blast
    then show ?thesis
      using False s
      by (simp add: render_def st'_def[symmetric] beforeRenderSolution_def Let_def st''_def)
  qed
qed

lemma startReassemble_hides:
  assumes "reassembleState st = None"
  shows "\<not> reassembleButtonVisible (startReassembleAnimation st)"
  using assms by (simp add: startReassembleAnimation_def Let_def)

text \<open>
  Claim C7, as amended. While the affordance is visible and less than
  \<^verbatim>\<open>reassembleMinVisibleSec\<close> seconds have passed since it was shown,
  \<^verbatim>\<open>_updateStruggleDetection\<close> leaves it visible, and so does every rendered frame
  outside a reassembly animation, whatever the excess metric, the motion and the explode
  amount are. \<^verbatim>\<open>startReassembleAnimation()\<close> hides it at once.
\<close>

theorem affordance_min_visible:
  assumes "reassembleButtonVisible st"
  shows "(timeSec st - reassembleVisibleSinceSec st < reassembleMinVisibleSec (settings st)
            \<longrightarrow> reassembleButtonVisible (updateStruggleDetection sol st))
       \<and> (reassembleState st = None
            \<and> nowSec - reassembleVisibleSinceSec st < reassembleMinVisibleSec (settings st)
            \<longrightarrow> reassembleButtonVisible (render nowSec sol st))
       \<and> (reassembleState st = None
            \<longrightarrow> \<not> reassembleButtonVisible (startReassembleAnimation st))"
  using assms updateStruggle_keeps_visible render_keeps_visible startReassemble_hides by blast

lemma shown_state:
  "reassembleButtonVisible
     shownState
   \<and> reassembleVisibleSinceSec
     shownState = 5
   \<and> timeSec
     shownState = 5
   \<and> reassembleState
     shownState = None
   \<and> settings
     shownState = defaultConfig"
  by (simp add: shownState_def updateStruggleDetection_def initialState_def defaultConfig_def Let_def
      computeBoundingBoxMetrics_def getRenderPieces_def computePiecesBoundingBox_def
      isAnyPieceMoving_def motionDelta_def hypot3_def PIECES_length_def eval_nat_numeral
      setReassembleButtonVisible_def)

lemma startReassemble_timeSec:
  "timeSec (startReassembleAnimation st) = timeSec st"
  by (simp add: startReassembleAnimation_def Let_def split: option.splits)

theorem affordance_min_visible_witness:
  "reassembleButtonVisible (updateStruggleDetection [] shownState)
   \<and> reassembleButtonVisible (render (5 + 1 / 2) [] shownState)
   \<and> \<not> reassembleButtonVisible (startReassembleAnimation shownState)"
  using affordance_min_visible[of shownState "[]" "5 + 1 / 2"] shown_state
  by (simp add: defaultConfig_def)

text \<open>
  The claim as first stated fails: the affordance is hidden by
  \<^verbatim>\<open>startReassembleAnimation()\<close> in the very moment it was shown.
\<close>

theorem affordance_hidden_at_once:
  "reassembleButtonVisible shownState
   \<and> timeSec (startReassembleAnimation shownState) - reassembleVisibleSinceSec shownState
       < reassembleMinVisibleSec (settings shownState)
   \<and> \<not> reassembleButtonVisible (startReassembleAnimation shownState)"
  using shown_state startReassemble_hides[of shownState]
  by (simp add: startReassemble_timeSec defaultConfig_def)

section \<open>The spring scenario\<close>

lemma springScenario_state: "springScenario = springState 2 0"
  by (simp add: springState_def springScenario_def)

lemma springStep_state:
  "springStep (springState x v) =
     (let v' = (v - x / 3) * exp (- (2 / 15));
          x' = x + v' / 60
      in if \<bar>x'\<bar> < 5 / 10000 \<and> \<bar>v'\<bar> < 4 / 1000 then springState 0 0 else springState x' v')"
  by (simp add: springStep_def springState_def springScenario_def integratePieceMotion_def
      integratePiece_def trimTinyMotion_def trimPiece_def initialState_def defaultConfig_def Let_def)

lemma damping_bounds: "13 / 15 \<le> exp (- (2 / 15) :: real) \<and> exp (- (2 / 15) :: real) \<le> 225 / 257"
proof
  show "13 / 15 \<le> exp (- (2 / 15) :: real)"
    using exp_ge_add_one_self[of "- (2 / 15) :: real"] by simp
  have "1 + 2 / 15 + (2 / 15)\<^sup>2 / 2 \<le> exp (2 / 15 :: real)"
    by (rule exp_lower_Taylor_quadratic) simp
  then have "257 / 225 \<le> exp (2 / 15 :: real)" by (simp add: power2_eq_square)
  then have "inverse (exp (2 / 15 :: real)) \<le> inverse (257 / 225)"
    by (intro le_imp_inverse_le) simp_all
  then show "exp (- (2 / 15) :: real) \<le> 225 / 257"
    by (simp add: exp_minus)
qed

lemma abs_combo_le:
  fixes p q x y X Y :: real
  assumes "\<bar>x\<bar> \<le> X" and "\<bar>y\<bar> \<le> Y"
  shows "\<bar>p * x + q * y\<bar> \<le> \<bar>p\<bar> * X + \<bar>q\<bar> * Y"
proof -
  have "\<bar>p * x + q * y\<bar> \<le> \<bar>p\<bar> * \<bar>x\<bar> + \<bar>q\<bar> * \<bar>y\<bar>"
    using abs_triangle_ineq[of "p * x" "q * y"] by (simp add: abs_mult)
  also have "\<dots> \<le> \<bar>p\<bar> * X + \<bar>q\<bar> * Y"
    by (intro add_mono mult_left_mono assms) simp_all
  finally show ?thesis .
qed

text \<open>
  One step without the snap to rest, for a damping factor \<open>d\<close> between 13/15 and 225/257:
  the larger of \<open>\<bar>x\<bar>\<close> and \<open>\<bar>12 x + 3 v\<bar> / 5\<close> shrinks by the factor 26/27 at least.
\<close>

lemma spring_contracts:
  fixes x v d B :: real
  assumes d: "13 / 15 \<le> d" "d \<le> 225 / 257"
    and x: "\<bar>x\<bar> \<le> B" and s: "\<bar>12 * x + 3 * v\<bar> \<le> 5 * B"
  defines "v' \<equiv> (v - x / 3) * d"
  defines "x' \<equiv> x + v' / 60"
  shows "\<bar>x'\<bar> \<le> 26 / 27 * B" and "\<bar>12 * x' + 3 * v'\<bar> \<le> 5 * (26 / 27 * B)"
proof -
  have B: "0 \<le> B" using x by linarith
  have ex: "x' = (1 - 13 * d / 180) * x + (d / 180) * (12 * x + 3 * v)"
    by (simp add: x'_def v'_def field_simps)
  have "\<bar>x'\<bar> \<le> \<bar>1 - 13 * d / 180\<bar> * B + \<bar>d / 180\<bar> * (5 * B)"
    unfolding ex by (rule abs_combo_le[OF x s])
  also have "\<dots> = (1 - 8 * d / 180) * B"
    using d by (simp add: abs_if field_simps)
  also have "\<dots> \<le> 26 / 27 * B"
    by (rule mult_right_mono) (use d B in simp_all)
  finally show "\<bar>x'\<bar> \<le> 26 / 27 * B" .
  have es: "12 * x' + 3 * v' = (12 - 208 * d / 15) * x + (16 * d / 15) * (12 * x + 3 * v)"
    by (simp add: x'_def v'_def field_simps)
  have "\<bar>12 * x' + 3 * v'\<bar> \<le> \<bar>12 - 208 * d / 15\<bar> * B + \<bar>16 * d / 15\<bar> * (5 * B)"
    unfolding es by (rule abs_combo_le[OF x s])
  also have "\<dots> = (288 * d / 15 - 12) * B"
    using d by (simp add: abs_if field_simps)
  also have "\<dots> \<le> 5 * (26 / 27) * B"
    by (rule mult_right_mono) (use d B in simp_all)
  finally show "\<bar>12 * x' + 3 * v'\<bar> \<le> 5 * (26 / 27 * B)" by simp
qed

lemma spring_invariant:
  "\<exists>x v. (springStep ^^ n) springScenario = springState x v
         \<and> \<bar>x\<bar> \<le> (26 / 27) ^ n * (24 / 5)
         \<and> \<bar>12 * x + 3 * v\<bar> \<le> 5 * ((26 / 27) ^ n * (24 / 5))"
proof (induction n)
  case 0
  show ?case
    by (rule exI[of _ 2], rule exI[of _ 0]) (simp add: springScenario_state)
next
  case (Suc n)
  then obtain x v where st: "(springStep ^^ n) springScenario = springState x v"
    and x: "\<bar>x\<bar> \<le> (26 / 27) ^ n * (24 / 5)"
    and s: "\<bar>12 * x + 3 * v\<bar> \<le> 5 * ((26 / 27) ^ n * (24 / 5))"
    by blast
  define v' where "v' = (v - x / 3) * exp (- (2 / 15))"
  define x' where "x' = x + v' / 60"
  have next_state: "(springStep ^^ Suc n) springScenario
      = (if \<bar>x'\<bar> < 5 / 10000 \<and> \<bar>v'\<bar> < 4 / 1000 then springState 0 0 else springState x' v')"
    by (simp add: st springStep_state Let_def x'_def v'_def)
  have c: "\<bar>x'\<bar> \<le> 26 / 27 * ((26 / 27) ^ n * (24 / 5))"
    "\<bar>12 * x' + 3 * v'\<bar> \<le> 5 * (26 / 27 * ((26 / 27) ^ n * (24 / 5)))"
    unfolding x'_def v'_def
    using spring_contracts[OF conjunct1[OF damping_bounds] conjunct2[OF damping_bounds] x s]
    by simp_all
  show ?case
  proof (cases "\<bar>x'\<bar> < 5 / 10000 \<and> \<bar>v'\<bar> < 4 / 1000")
    case True
    then have "(springStep ^^ Suc n) springScenario = springState 0 0"
      unfolding next_state by (rule if_P)
    then show ?thesis
      by (intro exI[of _ 0]) simp
  next
    case False
    then have "(springStep ^^ Suc n) springScenario = springState x' v'"
      unfolding next_state by (rule if_not_P)
    then show ?thesis
      using c by (intro exI[of _ x'] exI[of _ v']) simp
  qed
qed

lemma spring_power_small: "(26 / 27 :: real) ^ 180 * (24 / 5) < 1 / 100"
proof -
  have a: "(26 / 27 :: real) ^ 18 \<le> 51 / 100"
    by (simp add: power_divide)
  have "(26 / 27 :: real) ^ 180 = ((26 / 27) ^ 18) ^ 10"
    by (simp add: power_mult[symmetric])
  also have "\<dots> \<le> (51 / 100) ^ 10"
    by (rule power_mono[OF a]) simp
  also have "\<dots> < 1 / 480"
    by (simp add: power_divide)
  finally show ?thesis by simp
qed

text \<open>
  Claim C5. In the spring scenario (one piece at offset \<open>[2, 0, 0]\<close> at rest, spring
  strength 20, damping 8, gravity 0), after 180 steps of 1/60 s, each followed by the snap
  to rest, the offset of the piece has magnitude below 0.01.
\<close>

theorem spring_settles:
  "hypot3 (vx (pieceOffsets ((springStep ^^ 180) springScenario) ! 0))
          (vy (pieceOffsets ((springStep ^^ 180) springScenario) ! 0))
          (vz (pieceOffsets ((springStep ^^ 180) springScenario) ! 0)) < 1 / 100"
proof -
  obtain x v where st: "(springStep ^^ 180) springScenario = springState x v"
    and x: "\<bar>x\<bar> \<le> (26 / 27) ^ 180 * (24 / 5)"
    using spring_invariant[of 180] by blast
  have "\<bar>x\<bar> < 1 / 100" using x spring_power_small by linarith
  then show ?thesis
    by (simp add: st springState_def hypot3_def)
qed

end
